theory Spec2Isabelle
  imports Complex_Main "HOL-Library.Sublist"
begin

section \<open>The image processor of lambda\_function.py\<close>

text \<open>
  The handler reacts to a batch of S3 notification records. For each record it downloads
  the object into /tmp, reads its metadata with PIL, writes a thumbnail of half the
  linear size, uploads it to the destination bucket, stores an item in the DynamoDB
  table and removes the two local files.

  The model is a shallow embedding with explicit state passing. The state \<open>world\<close> holds
  everything the handler can touch: the S3 objects, the files under /tmp, the table, the
  standard output, the counters behind \<open>uuid4()\<close> and \<open>datetime.utcnow()\<close>, and a trace of
  the steps in the order the interpreter runs them. Every Python exception is a value of
  type \<open>error\<close>; a function that may raise returns \<open>error + 'a\<close> together with the state
  reached when it raised.

  What the source imports and does not define (PIL's decoder, \<open>thumbnail\<close> and \<open>save\<close>,
  the fault behaviour of the two AWS clients, the text of an exception, the values of
  \<open>uuid4\<close> and of the clock) is a field of the record \<open>env\<close>: the theorems hold for every
  such environment.

  Strings are byte strings (UTF-8). File sizes and pixel counts are natural numbers.
  A notification record is a record type with the fields the loop body reads by
  subscript (\<open>record['s3']['bucket']['name']\<close> and so on), so a record that lacks one of
  them, which would raise KeyError at lines 37 to 41, is outside the model; the three
  fields read with \<open>.get\<close> are optional.
\<close>

subsection \<open>Strings: basename, decimal numerals, URL decoding\<close>

type_synonym bytes = "nat list"

text \<open>\<open>os.path.basename\<close> (posixpath): what follows the last slash.\<close>

definition basename :: "string \<Rightarrow> string" where
  "basename p = rev (takeWhile (\<lambda>c. c \<noteq> CHR ''/'') (rev p))"

definition digit_char :: "nat \<Rightarrow> char" where
  "digit_char d = ''0123456789'' ! d"

text \<open>\<open>str(n)\<close> of a non-negative integer, as an f-string formats it.\<close>

fun str_nat :: "nat \<Rightarrow> string" where
  "str_nat n = (if n < 10 then [digit_char n] else str_nat (n div 10) @ [digit_char (n mod 10)])"

declare str_nat.simps [simp del]

definition is_hex :: "char \<Rightarrow> bool" where
  "is_hex c = (c \<in> set ''0123456789ABCDEFabcdef'')"

definition hex_val :: "char \<Rightarrow> nat" where
  "hex_val c =
     (let n = (of_char c :: nat)
      in if n \<le> 57 then n - 48 else if n \<le> 70 then n - 55 else n - 87)"

text \<open>
  \<open>urllib.parse.unquote\<close>: a percent sign followed by two hexadecimal digits becomes the
  byte they denote; any other percent sign stays as it is. (Python then decodes the bytes
  as UTF-8 and replaces an invalid sequence by U+FFFD; a string of the model is the byte
  string itself, so the model is exact where the escaped bytes are valid UTF-8.)
\<close>

fun unquote :: "string \<Rightarrow> string" where
  "unquote (c # a # b # s) =
     (if c = CHR ''%'' \<and> is_hex a \<and> is_hex b
      then char_of (16 * hex_val a + hex_val b) # unquote s
      else c # unquote (a # b # s))"
| "unquote s = s"

text \<open>\<open>unquote_plus\<close>: \<open>string.replace('+', ' ')\<close>, then \<open>unquote\<close>.\<close>

definition plus_to_space :: "char \<Rightarrow> char" where
  "plus_to_space c = (if c = CHR ''+'' then CHR '' '' else c)"

definition unquote_plus :: "string \<Rightarrow> string" where
  "unquote_plus s = unquote (map plus_to_space s)"

subsection \<open>Exceptions, images, the environment\<close>

datatype error =
    ClientError
  | S3UploadFailedError
  | FileNotFoundError
  | UnidentifiedImageError
  | ZeroDivisionError
  | ValueError
  | OSError

text \<open>A decoded PIL image: \<open>img.width\<close>, \<open>img.height\<close>, \<open>img.format\<close>, \<open>img.mode\<close> and its pixels.\<close>

record image =
  im_width :: nat
  im_height :: nat
  im_format :: string
  im_mode :: string
  im_pixels :: bytes

record env =
  image_open :: "bytes \<Rightarrow> error + image"
  thumbnail :: "rat \<times> rat \<Rightarrow> image \<Rightarrow> error + image"
  save :: "image \<Rightarrow> string \<Rightarrow> error + bytes"
  upload_fault :: "string \<Rightarrow> error option"
  put_item_fault :: "string \<Rightarrow> error option"
  str_exc :: "error \<Rightarrow> string"
  uuid4 :: "nat \<Rightarrow> string"
  isoformat :: "nat \<Rightarrow> string"

subsection \<open>Notification records, metadata, audit items\<close>

record s3_record =
  bucket_name :: string
  key :: string
  object_size :: "int option"
  eventName :: string
  eventTime :: string
  awsRegion :: "string option"
  eventVersion :: "string option"

record event =
  Records :: "s3_record list"

text \<open>The dictionary that \<open>get_image_metadata\<close> returns.\<close>

record metadata =
  width :: nat
  height :: nat
  format :: string
  mode :: string
  size_bytes :: nat

text \<open>The \<open>Item\<close> of \<open>put_item\<close>; \<open>resource_id\<close> is the attribute \<open>resource-id\<close>.\<close>

record item =
  resource_id :: string
  EventTime :: string
  EventType :: string
  OriginalBucket :: string
  OriginalObjectKey :: string
  OriginalSize :: int
  OriginalWidth :: int
  OriginalHeight :: int
  OriginalFormat :: string
  OriginalMode :: string
  OriginalFileSize :: int
  ResizedBucket :: string
  ResizedObjectKey :: string
  ResizedWidth :: int
  ResizedHeight :: int
  ResizedFormat :: string
  ResizedMode :: string
  ResizedFileSize :: int
  ProcessingTime :: string
  ReductionPercentage :: int
  DimensionReduction :: string
  EventSource :: string
  AWSRegion :: string
  EventVersion :: string

subsection \<open>The state and the trace\<close>

text \<open>
  One constructor for each step of the loop body, with the arguments of the call. A step
  is recorded when it starts, so a step that raises is the last of the trace.
  \<open>Compute_reduction r o\<close> marks the evaluation of the expression of line 105 on the
  resized and the original byte size.
\<close>

datatype step =
    Download_file string string string
  | Get_image_metadata string
  | Resize_image string string
  | Upload_file string string string "(string \<times> string) list"
  | Compute_reduction nat nat
  | Put_item item
  | Remove string

record world =
  s3_objects :: "string \<times> string \<Rightarrow> bytes option"
  s3_metadata :: "string \<times> string \<Rightarrow> (string \<times> string) list option"
  tmp_files :: "string \<Rightarrow> bytes option"
  hala_db :: "item list"
  stdout :: "string list"
  uuid_count :: nat
  clock :: nat
  trace :: "step list"

definition record_step :: "step \<Rightarrow> world \<Rightarrow> world" where
  "record_step s w = w\<lparr>trace := trace w @ [s]\<rparr>"

definition print :: "string \<Rightarrow> world \<Rightarrow> world" where
  "print s w = w\<lparr>stdout := stdout w @ [s]\<rparr>"

text \<open>Sequencing of two computations that may raise: the second runs only if the first returns.\<close>

definition bind ::
  "(world \<Rightarrow> (error + 'a) \<times> world) \<Rightarrow> ('a \<Rightarrow> world \<Rightarrow> (error + 'b) \<times> world) \<Rightarrow>
   world \<Rightarrow> (error + 'b) \<times> world" where
  "bind m f w = (case m w of (Inl e, w') \<Rightarrow> (Inl e, w') | (Inr x, w') \<Rightarrow> f x w')"

definition new_uuid :: "env \<Rightarrow> world \<Rightarrow> (error + string) \<times> world" where
  "new_uuid E w = (Inr (uuid4 E (uuid_count w)), w\<lparr>uuid_count := Suc (uuid_count w)\<rparr>)"

definition utcnow :: "env \<Rightarrow> world \<Rightarrow> (error + string) \<times> world" where
  "utcnow E w = (Inr (isoformat E (clock w)), w\<lparr>clock := Suc (clock w)\<rparr>)"

subsection \<open>The calls to S3, DynamoDB and the file system\<close>

definition download_file :: "string \<Rightarrow> string \<Rightarrow> string \<Rightarrow> world \<Rightarrow> (error + unit) \<times> world" where
  "download_file Bucket Key Filename w =
     (let w' = record_step (Download_file Bucket Key Filename) w
      in case s3_objects w (Bucket, Key) of
           None \<Rightarrow> (Inl ClientError, w')
         | Some bs \<Rightarrow> (Inr (), w'\<lparr>tmp_files := (tmp_files w')(Filename \<mapsto> bs)\<rparr>))"

definition upload_file ::
  "env \<Rightarrow> string \<Rightarrow> string \<Rightarrow> string \<Rightarrow> (string \<times> string) list \<Rightarrow> world \<Rightarrow> (error + unit) \<times> world" where
  "upload_file E Filename Bucket Key Metadata w =
     (let w' = record_step (Upload_file Filename Bucket Key Metadata) w
      in case tmp_files w Filename of
           None \<Rightarrow> (Inl FileNotFoundError, w')
         | Some bs \<Rightarrow>
             (case upload_fault E Key of
                Some e \<Rightarrow> (Inl e, w')
              | None \<Rightarrow>
                  (Inr (), w'\<lparr>s3_objects := (s3_objects w')((Bucket, Key) \<mapsto> bs),
                              s3_metadata := (s3_metadata w')((Bucket, Key) \<mapsto> Metadata)\<rparr>)))"

definition put_item :: "env \<Rightarrow> item \<Rightarrow> world \<Rightarrow> (error + unit) \<times> world" where
  "put_item E Item w =
     (let w' = record_step (Put_item Item) w
      in case put_item_fault E (OriginalObjectKey Item) of
           Some e \<Rightarrow> (Inl e, w')
         | None \<Rightarrow> (Inr (), w'\<lparr>hala_db := hala_db w' @ [Item]\<rparr>))"

definition os_remove :: "string \<Rightarrow> world \<Rightarrow> (error + unit) \<times> world" where
  "os_remove path w =
     (let w' = record_step (Remove path) w
      in case tmp_files w path of
           None \<Rightarrow> (Inl FileNotFoundError, w')
         | Some bs \<Rightarrow> (Inr (), w'\<lparr>tmp_files := (tmp_files w')(path := None)\<rparr>))"

subsection \<open>get\_image\_metadata and resize\_image\<close>

definition get_image_metadata :: "env \<Rightarrow> string \<Rightarrow> world \<Rightarrow> (error + metadata) \<times> world" where
  "get_image_metadata E image_path w =
     (let w' = record_step (Get_image_metadata image_path) w
      in case tmp_files w image_path of
           None \<Rightarrow> (Inl FileNotFoundError, w')
         | Some bs \<Rightarrow>
             (case image_open E bs of
                Inl e \<Rightarrow> (Inl e, w')
              | Inr img \<Rightarrow>
                  (Inr \<lparr>width = im_width img, height = im_height img, format = im_format img,
                        mode = im_mode img, size_bytes = length bs\<rparr>, w')))"

text \<open>
  \<open>image.thumbnail(tuple(x / 2 for x in image.size))\<close>: the box handed to PIL is the pair
  of the halves, by true division.
\<close>

definition half_box :: "image \<Rightarrow> rat \<times> rat" where
  "half_box img = (of_nat (im_width img) / 2, of_nat (im_height img) / 2)"

definition resize_image ::
  "env \<Rightarrow> string \<Rightarrow> string \<Rightarrow> world \<Rightarrow> (error + (nat \<times> nat) \<times> (nat \<times> nat)) \<times> world" where
  "resize_image E image_path resized_path w =
     (let w' = record_step (Resize_image image_path resized_path) w
      in case tmp_files w image_path of
           None \<Rightarrow> (Inl FileNotFoundError, w')
         | Some bs \<Rightarrow>
             (case image_open E bs of
                Inl e \<Rightarrow> (Inl e, w')
              | Inr img \<Rightarrow>
                  (let original_size = (im_width img, im_height img)
                   in case thumbnail E (half_box img) img of
                        Inl e \<Rightarrow> (Inl e, w')
                      | Inr img' \<Rightarrow>
                          (let resized_size = (im_width img', im_height img')
                           in case save E img' resized_path of
                                Inl e \<Rightarrow> (Inl e, w')
                              | Inr out \<Rightarrow>
                                  (Inr (original_size, resized_size),
                                   w'\<lparr>tmp_files := (tmp_files w')(resized_path \<mapsto> out)\<rparr>)))))"

subsection \<open>The derived metrics\<close>

text \<open>
  Line 105: \<open>int(round((1 - (resized / original)) * 100, 2))\<close>. The operands are the two
  file sizes, Python integers, so \<open>/\<close> is true division: it raises ZeroDivisionError on a
  zero divisor and otherwise gives the double nearest to the quotient. The subtraction and
  the multiplication are those of IEEE 754 doubles, each rounded to the nearest double.
  \<open>round(x, 2)\<close> takes the exact value of the double \<open>x\<close>, rounds it to two decimals, a tie to
  the even neighbour, and gives the double nearest to that decimal. \<open>int\<close> cuts the fraction
  off (towards zero).

  A double is modelled by the rational number it denotes. \<open>fl\<close> rounds a rational to 53
  significant bits, a tie to the even significand; \<open>ilog2 x\<close> is the exponent of the
  leading bit of \<open>x\<close>. The exponent is not bounded: file sizes are below \<open>2^63\<close>, so every
  value of line 105 is zero or a normal double and neither overflow nor underflow occurs.
\<close>

definition round_half_even :: "rat \<Rightarrow> int" where
  "round_half_even x =
     (let f = \<lfloor>x\<rfloor>; d = x - of_int f
      in if d < 1 / 2 then f else if 1 / 2 < d then f + 1 else if even f then f else f + 1)"

function ilog2 :: "rat \<Rightarrow> int" where
  "ilog2 x =
     (if x \<le> 0 then 0
      else if 2 \<le> x then ilog2 (x / 2) + 1
      else if x < 1 then ilog2 (2 * x) - 1
      else 0)"
  by pat_completeness auto
termination
proof (relation "measure (\<lambda>x. if 2 \<le> x then nat \<lfloor>x\<rfloor> else nat \<lceil>1 / x\<rceil>)")
  show "wf (measure (\<lambda>x::rat. if 2 \<le> x then nat \<lfloor>x\<rfloor> else nat \<lceil>1 / x\<rceil>))"
    by simp
next
  fix x :: rat
  assume "\<not> x \<le> 0" and big: "2 \<le> x"
  have 1: "\<lfloor>x / 2\<rfloor> < \<lfloor>x\<rfloor>"
    using big by linarith
  have 2: "2 \<le> \<lfloor>x\<rfloor>"
    using big by linarith
  from big have "2 / x \<le> 1" by (simp add: field_simps)
  then have 3: "\<lceil>2 / x\<rceil> \<le> 1" by (simp add: ceiling_le_iff)
  have A: "nat \<lfloor>x / 2\<rfloor> < nat \<lfloor>x\<rfloor>"
    using 1 2 by linarith
  have r: "1 / (x / 2) = 2 / x" by simp
  have B: "nat \<lceil>1 / (x / 2)\<rceil> < nat \<lfloor>x\<rfloor>"
    unfolding r using 2 3 by linarith
  show "(x / 2, x) \<in> measure (\<lambda>x. if 2 \<le> x then nat \<lfloor>x\<rfloor> else nat \<lceil>1 / x\<rceil>)"
  proof (cases "2 \<le> x / 2")
    case True
    with big A show ?thesis by (simp only: in_measure if_True)
  next
    case False
    with big B show ?thesis by (simp only: in_measure if_True if_False)
  qed
next
  fix x :: rat
  assume pos: "\<not> x \<le> 0" and "\<not> 2 \<le> x" and small: "x < 1"
  define t where "t = 1 / x"
  from pos small have t: "1 < t"
    by (simp add: t_def field_simps)
  have half: "1 / (2 * x) = t / 2"
    by (simp add: t_def)
  have "\<lceil>t / 2\<rceil> < \<lceil>t\<rceil>"
  proof (cases "t \<le> 2")
    case True
    then have "\<lceil>t / 2\<rceil> \<le> 1" by (simp add: ceiling_le_iff)
    moreover from t have "2 \<le> \<lceil>t\<rceil>" by linarith
    ultimately show ?thesis by linarith
  next
    case False
    then have "t / 2 \<le> t - 1" by simp
    then have "\<lceil>t / 2\<rceil> \<le> \<lceil>t - 1\<rceil>" by (rule ceiling_mono)
    then show ?thesis by simp
  qed
  moreover from t have "0 < \<lceil>t\<rceil>" by linarith
  ultimately have "nat \<lceil>t / 2\<rceil> < nat \<lceil>t\<rceil>"
    by linarith
  then have C: "nat \<lceil>1 / (2 * x)\<rceil> < nat \<lceil>1 / x\<rceil>"
    unfolding half by (simp only: t_def)
  from small have D: "\<not> 2 \<le> 2 * x" and E: "\<not> 2 \<le> x"
    by simp_all
  from C show "(2 * x, x) \<in> measure (\<lambda>x. if 2 \<le> x then nat \<lfloor>x\<rfloor> else nat \<lceil>1 / x\<rceil>)"
    by (simp only: in_measure D E if_False)
qed

declare ilog2.simps [simp del]

definition fl :: "rat \<Rightarrow> rat" where
  "fl x = (let e = ilog2 \<bar>x\<bar> - 52 in of_int (round_half_even (x / 2 powi e)) * 2 powi e)"

definition py_round2 :: "rat \<Rightarrow> rat" where
  "py_round2 x = fl (of_int (round_half_even (x * 100)) / 100)"

definition py_int :: "rat \<Rightarrow> int" where
  "py_int x = (if 0 \<le> x then \<lfloor>x\<rfloor> else \<lceil>x\<rceil>)"

definition reduction :: "nat \<Rightarrow> nat \<Rightarrow> int" where
  "reduction resized original =
     py_int (py_round2 (fl (fl (1 - fl (of_nat resized / of_nat original)) * 100)))"

definition reduction_percentage :: "nat \<Rightarrow> nat \<Rightarrow> error + int" where
  "reduction_percentage resized original =
     (if original = 0 then Inl ZeroDivisionError else Inr (reduction resized original))"

definition compute_reduction :: "nat \<Rightarrow> nat \<Rightarrow> world \<Rightarrow> (error + int) \<times> world" where
  "compute_reduction resized original w =
     (reduction_percentage resized original, record_step (Compute_reduction resized original) w)"

text \<open>The f-string \<open>{size[0]}x{size[1]}\<close>, and the arrow U+2192 of line 106 in UTF-8.\<close>

definition dimensions :: "nat \<times> nat \<Rightarrow> string" where
  "dimensions sz = str_nat (fst sz) @ ''x'' @ str_nat (snd sz)"

definition arrow :: string where
  "arrow = [CHR 0xE2, CHR 0x86, CHR 0x92]"

definition dimension_reduction :: "nat \<times> nat \<Rightarrow> nat \<times> nat \<Rightarrow> string" where
  "dimension_reduction original_size resized_size =
     dimensions original_size @ '' '' @ arrow @ '' '' @ dimensions resized_size"

subsection \<open>The body of the loop\<close>

text \<open>Lines 45 to 47: the two local paths and the key of the resized object.\<close>

definition download_path_of :: "string \<Rightarrow> string \<Rightarrow> string" where
  "download_path_of uuid base_name = ''/tmp/'' @ uuid @ ''_'' @ base_name"

definition upload_path_of :: "string \<Rightarrow> string" where
  "upload_path_of base_name = ''/tmp/resized_'' @ base_name"

definition resized_object_key_of :: "string \<Rightarrow> string" where
  "resized_object_key_of base_name = ''resized-'' @ base_name"

text \<open>
  Lines 118 to 123: the inner \<open>try\<close>. The second \<open>os.remove\<close> runs only if the first
  returns; an exception of either is printed as a warning and goes no further.
\<close>

definition cleanup :: "env \<Rightarrow> string \<Rightarrow> string \<Rightarrow> world \<Rightarrow> world" where
  "cleanup E download_path upload_path w =
     (case bind (os_remove download_path) (\<lambda>_. os_remove upload_path) w of
        (Inl cleanup_error, w') \<Rightarrow>
          print (''Warning: Could not clean up temp files: '' @ str_exc E cleanup_error) w'
      | (Inr _, w') \<Rightarrow> w')"

text \<open>
  Lines 36 to 123, the body of the outer \<open>try\<close>, statement by statement. The arguments of
  a call are evaluated before the call: \<open>datetime.utcnow()\<close> before \<open>upload_file\<close>, and
  \<open>uuid4()\<close>, \<open>datetime.utcnow()\<close> and the expression of line 105, in this order, before
  \<open>put_item\<close>.
\<close>

definition try_body :: "env \<Rightarrow> s3_record \<Rightarrow> world \<Rightarrow> (error + unit) \<times> world" where
  "try_body E rec w =
     (let bucket = bucket_name rec;
          object_key = unquote_plus (key rec);
          size_attr = (case object_size rec of None \<Rightarrow> - 1 | Some n \<Rightarrow> n);
          event_name = eventName rec;
          event_time = eventTime rec;
          base_name = basename object_key
      in bind (new_uuid E) (\<lambda>uuid.
         let download_path = download_path_of uuid base_name;
             upload_path = upload_path_of base_name;
             resized_object_key = resized_object_key_of base_name
         in bind (download_file bucket object_key download_path) (\<lambda>_.
            bind (get_image_metadata E download_path) (\<lambda>original_metadata.
            bind (resize_image E download_path upload_path) (\<lambda>(original_size, resized_size).
            bind (get_image_metadata E upload_path) (\<lambda>resized_metadata.
            bind (utcnow E) (\<lambda>processing_time.
            bind (upload_file E upload_path ''dest-bucket-image-out'' resized_object_key
                    [(''original_filename'', base_name),
                     (''original_bucket'', bucket),
                     (''resized_dimensions'', dimensions resized_size),
                     (''processing_time'', processing_time)]) (\<lambda>_.
            bind (new_uuid E) (\<lambda>resource.
            bind (utcnow E) (\<lambda>now.
            bind (compute_reduction (size_bytes resized_metadata) (size_bytes original_metadata))
              (\<lambda>reduction.
            bind (put_item E
                    \<lparr>resource_id = resource,
                     EventTime = event_time,
                     EventType = event_name,
                     OriginalBucket = bucket,
                     OriginalObjectKey = object_key,
                     OriginalSize = size_attr,
                     OriginalWidth = int (width original_metadata),
                     OriginalHeight = int (height original_metadata),
                     OriginalFormat = format original_metadata,
                     OriginalMode = mode original_metadata,
                     OriginalFileSize = int (size_bytes original_metadata),
                     ResizedBucket = ''dest-bucket-image-out'',
                     ResizedObjectKey = resized_object_key,
                     ResizedWidth = int (width resized_metadata),
                     ResizedHeight = int (height resized_metadata),
                     ResizedFormat = format resized_metadata,
                     ResizedMode = mode resized_metadata,
                     ResizedFileSize = int (size_bytes resized_metadata),
                     ProcessingTime = now,
                     ReductionPercentage = reduction,
                     DimensionReduction = dimension_reduction original_size resized_size,
                     EventSource = ''aws:s3'',
                     AWSRegion = (case awsRegion rec of None \<Rightarrow> [] | Some s \<Rightarrow> s),
                     EventVersion = (case eventVersion rec of None \<Rightarrow> [] | Some s \<Rightarrow> s)\<rparr>) (\<lambda>_.
            (\<lambda>w'. (Inr (),
               cleanup E download_path upload_path
                 (print (''Successfully processed '' @ object_key @ ''. Original: ''
                         @ str_nat (size_bytes original_metadata) @ '' bytes, Resized: ''
                         @ str_nat (size_bytes resized_metadata) @ '' bytes'') w')))))))))))))) w)"

text \<open>
  Lines 35 and 125 to 127: the outer \<open>try\<close> with its handler, which prints the exception
  and raises it again.
\<close>

definition process_record :: "env \<Rightarrow> s3_record \<Rightarrow> world \<Rightarrow> (error + unit) \<times> world" where
  "process_record E rec w =
     (case try_body E rec w of
        (Inl e, w') \<Rightarrow>
          (Inl e, print (''Error processing '' @ unquote_plus (key rec) @ '': '' @ str_exc E e) w')
      | (Inr u, w') \<Rightarrow> (Inr u, w'))"

subsection \<open>lambda\_handler\<close>

text \<open>Line 34: the \<open>for\<close> loop. An exception that leaves the body leaves the loop.\<close>

fun for_records :: "env \<Rightarrow> s3_record list \<Rightarrow> world \<Rightarrow> (error + unit) \<times> world" where
  "for_records E [] w = (Inr (), w)"
| "for_records E (rec # recs) w =
     (case process_record E rec w of
        (Inl e, w') \<Rightarrow> (Inl e, w')
      | (Inr _, w') \<Rightarrow> for_records E recs w')"

record response =
  statusCode :: int
  body :: string

text \<open>\<open>json.dumps\<close> of the dictionary of lines 131 to 134; \<open>CHR 0x22\<close> is the double quote.\<close>

definition quoted :: "string \<Rightarrow> string" where
  "quoted s = CHR 0x22 # s @ [CHR 0x22]"

definition json_dumps_body :: "string \<Rightarrow> nat \<Rightarrow> string" where
  "json_dumps_body message processed_count =
     ''{'' @ quoted ''message'' @ '': '' @ quoted message @ '', ''
     @ quoted ''processed_count'' @ '': '' @ str_nat processed_count @ ''}''"

definition lambda_handler :: "env \<Rightarrow> event \<Rightarrow> world \<Rightarrow> (error + response) \<times> world" where
  "lambda_handler E event w =
     (case for_records E (Records event) w of
        (Inl e, w') \<Rightarrow> (Inl e, w')
      | (Inr _, w') \<Rightarrow>
          (Inr \<lparr>statusCode = 200,
                body = json_dumps_body ''Image processing completed successfully''
                         (length (Records event))\<rparr>, w'))"

text \<open>The steps that one record adds to the trace.\<close>

definition steps_of :: "env \<Rightarrow> s3_record \<Rightarrow> world \<Rightarrow> step list" where
  "steps_of E rec w = drop (length (trace w)) (trace (snd (process_record E rec w)))"

section \<open>What the specification says, for comparison\<close>

subsection \<open>URL escaping\<close>

text \<open>
  The escaping that \<open>unquote_plus\<close> undoes, \<open>urllib.parse.quote_plus(s, safe)\<close>: a space
  becomes a plus sign; a letter, a digit, one of \<open>_.-~\<close> or a character of \<open>safe\<close> stays; any
  other byte becomes a percent sign and two hexadecimal digits. The keys of S3 notifications
  are escaped in this way, with the slash left as it is.
\<close>

definition hex_digit :: "nat \<Rightarrow> char" where
  "hex_digit d = ''0123456789ABCDEF'' ! d"

definition always_safe :: "char \<Rightarrow> bool" where
  "always_safe c =
     (c \<in> set ''ABCDEFGHIJKLMNOPQRSTUVWXYZabcdefghijklmnopqrstuvwxyz0123456789_.-~'')"

definition quote_char :: "string \<Rightarrow> char \<Rightarrow> string" where
  "quote_char safe c =
     (if c = CHR '' '' then ''+''
      else if always_safe c \<or> c \<in> set safe then [c]
      else [CHR ''%'', hex_digit (of_char c div 16), hex_digit (of_char c mod 16)])"

definition quote_plus :: "string \<Rightarrow> string \<Rightarrow> string" where
  "quote_plus safe s = concat (map (quote_char safe) s)"

subsection \<open>Decimal numerals\<close>

text \<open>The number that a string of decimal digits denotes, most significant digit first.\<close>

definition decimal_value :: "string \<Rightarrow> nat" where
  "decimal_value s = foldl (\<lambda>a c. 10 * a + (of_char c - 48)) 0 s"

subsection \<open>The nearest whole percent\<close>

text \<open>
  Section 4.3 of the specification: the reduction is \<open>round((1 - resized / original) * 100)\<close>,
  the nearest integer.
\<close>

definition nearest_percent :: "nat \<Rightarrow> nat \<Rightarrow> int" where
  "nearest_percent resized original = round ((1 - of_nat resized / of_nat original :: rat) * 100)"

subsection \<open>The stages of section 4.4\<close>

datatype stage = Fetch | Extract | Resize | Metrics | Store | Audit | Release

fun stage_of :: "step \<Rightarrow> stage" where
  "stage_of (Download_file b k p) = Fetch"
| "stage_of (Get_image_metadata p) = Extract"
| "stage_of (Resize_image p q) = Resize"
| "stage_of (Upload_file p b k md) = Store"
| "stage_of (Compute_reduction r n) = Metrics"
| "stage_of (Put_item it) = Audit"
| "stage_of (Remove p) = Release"

text \<open>The sequence of section 4.4 (steps 2 to 8), and the sequence of the source.\<close>

definition section_4_4 :: "stage list" where
  "section_4_4 = [Fetch, Extract, Resize, Extract, Metrics, Store, Audit, Release, Release]"

definition source_order :: "stage list" where
  "source_order = [Fetch, Extract, Resize, Extract, Store, Metrics, Audit, Release, Release]"

section \<open>A small environment to run the handler in\<close>

text \<open>
  A stand-in for PIL and AWS: a file is an image if it starts with two positive bytes, its
  width and height; the thumbnail has the floors of the box as its size and keeps one pixel
  byte; no upload and no write to the table fails; the n-th identifier is \<open>id\<close>n and the
  n-th reading of the clock is \<open>T\<close>n.
\<close>

definition test_env :: env where
  "test_env =
     \<lparr>image_open = (\<lambda>bs. case bs of
          w # h # px \<Rightarrow>
            if 0 < w \<and> 0 < h
            then Inr \<lparr>im_width = w, im_height = h, im_format = ''PNG'', im_mode = ''RGB'',
                      im_pixels = px\<rparr>
            else Inl UnidentifiedImageError
        | _ \<Rightarrow> Inl UnidentifiedImageError),
      thumbnail = (\<lambda>box img.
          Inr (img\<lparr>im_width := max 1 (nat \<lfloor>fst box\<rfloor>), im_height := max 1 (nat \<lfloor>snd box\<rfloor>),
                   im_pixels := take 1 (im_pixels img)\<rparr>)),
      save = (\<lambda>img path. Inr (im_width img # im_height img # im_pixels img)),
      upload_fault = (\<lambda>k. None),
      put_item_fault = (\<lambda>k. None),
      str_exc = (\<lambda>e. ''exception''),
      uuid4 = (\<lambda>n. ''id'' @ str_nat n),
      isoformat = (\<lambda>n. ''T'' @ str_nat n)\<rparr>"

text \<open>The same with a decoder that accepts every file, the empty one too.\<close>

definition lenient_env :: env where
  "lenient_env =
     test_env\<lparr>image_open := (\<lambda>bs. Inr \<lparr>im_width = 2, im_height = 2, im_format = ''PNG'',
                                        im_mode = ''RGB'', im_pixels = bs\<rparr>)\<rparr>"

definition test_world :: world where
  "test_world =
     \<lparr>s3_objects = map_of
        [((''src'', ''cats/a b.png''), [4, 2, 9, 9, 9, 9, 9, 9, 9, 9, 9, 9, 9, 9, 9, 9]),
         ((''src'', ''dogs/a b.png''), [6, 6, 1, 1]),
         ((''src'', ''notes.txt''), [0, 7, 7]),
         ((''src'', ''empty.png''), [])],
      s3_metadata = Map.empty,
      tmp_files = Map.empty,
      hala_db = [],
      stdout = [],
      uuid_count = 0,
      clock = 0,
      trace = []\<rparr>"

definition test_record :: "string \<Rightarrow> s3_record" where
  "test_record k =
     \<lparr>bucket_name = ''src'', key = k, object_size = None, eventName = ''ObjectCreated:Put'',
      eventTime = ''2024-05-01T10:00:00.000Z'', awsRegion = Some ''eu-west-1'',
      eventVersion = None\<rparr>"

section \<open>How one step changes the state\<close>

text \<open>
  For each step, when it returns and when it raises, and the state it leaves. The proofs about
  the loop body use these equations instead of unfolding the steps.
\<close>

lemma bind_Inr:
  "bind m f w = (Inr y, w') \<longleftrightarrow> (\<exists>x w1. m w = (Inr x, w1) \<and> f x w1 = (Inr y, w'))"
  by (auto simp: bind_def split: prod.splits sum.splits)

lemma bind_Inl:
  "bind m f w = (Inl e, w') \<longleftrightarrow>
     m w = (Inl e, w') \<or> (\<exists>x w1. m w = (Inr x, w1) \<and> f x w1 = (Inl e, w'))"
  by (auto simp: bind_def split: prod.splits sum.splits)

lemma new_uuid_eq:
  "new_uuid E w = (r, w1) \<longleftrightarrow> r = Inr (uuid4 E (uuid_count w)) \<and> w1 = w\<lparr>uuid_count := Suc (uuid_count w)\<rparr>"
  by (auto simp: new_uuid_def)

lemma utcnow_eq:
  "utcnow E w = (r, w1) \<longleftrightarrow> r = Inr (isoformat E (clock w)) \<and> w1 = w\<lparr>clock := Suc (clock w)\<rparr>"
  by (auto simp: utcnow_def)

lemma download_file_Inr:
  "download_file b k p w = (Inr u, w1) \<longleftrightarrow>
     (\<exists>bs. s3_objects w (b, k) = Some bs \<and>
        w1 = w\<lparr>tmp_files := (tmp_files w)(p \<mapsto> bs), trace := trace w @ [Download_file b k p]\<rparr>)"
  by (auto simp: download_file_def Let_def record_step_def split: option.splits)

lemma download_file_Inl:
  "download_file b k p w = (Inl e, w1) \<longleftrightarrow>
     s3_objects w (b, k) = None \<and> e = ClientError \<and> w1 = w\<lparr>trace := trace w @ [Download_file b k p]\<rparr>"
  by (auto simp: download_file_def Let_def record_step_def split: option.splits)

lemma get_image_metadata_Inr:
  "get_image_metadata E p w = (Inr md, w1) \<longleftrightarrow>
     (\<exists>bs img. tmp_files w p = Some bs \<and> image_open E bs = Inr img \<and>
        md = \<lparr>width = im_width img, height = im_height img, format = im_format img,
              mode = im_mode img, size_bytes = length bs\<rparr> \<and>
        w1 = w\<lparr>trace := trace w @ [Get_image_metadata p]\<rparr>)"
  by (auto simp: get_image_metadata_def Let_def record_step_def split: option.splits sum.splits)

lemma get_image_metadata_Inl:
  "get_image_metadata E p w = (Inl e, w1) \<longleftrightarrow>
     w1 = w\<lparr>trace := trace w @ [Get_image_metadata p]\<rparr> \<and>
     (tmp_files w p = None \<and> e = FileNotFoundError \<or>
      (\<exists>bs. tmp_files w p = Some bs \<and> image_open E bs = Inl e))"
  by (auto simp: get_image_metadata_def Let_def record_step_def split: option.splits sum.splits)

lemma resize_image_Inr:
  "resize_image E p q w = (Inr szs, w1) \<longleftrightarrow>
     (\<exists>bs img img' out. tmp_files w p = Some bs \<and> image_open E bs = Inr img \<and>
        thumbnail E (half_box img) img = Inr img' \<and> save E img' q = Inr out \<and>
        szs = ((im_width img, im_height img), (im_width img', im_height img')) \<and>
        w1 = w\<lparr>tmp_files := (tmp_files w)(q \<mapsto> out), trace := trace w @ [Resize_image p q]\<rparr>)"
  by (auto simp: resize_image_def Let_def record_step_def split: option.splits sum.splits)

lemma resize_image_Inl:
  "resize_image E p q w = (Inl e, w1) \<longleftrightarrow>
     w1 = w\<lparr>trace := trace w @ [Resize_image p q]\<rparr> \<and>
     (tmp_files w p = None \<and> e = FileNotFoundError \<or>
      (\<exists>bs. tmp_files w p = Some bs \<and>
         (image_open E bs = Inl e \<or>
          (\<exists>img. image_open E bs = Inr img \<and>
             (thumbnail E (half_box img) img = Inl e \<or>
              (\<exists>img'. thumbnail E (half_box img) img = Inr img' \<and> save E img' q = Inl e))))))"
  by (auto simp: resize_image_def Let_def record_step_def split: option.splits sum.splits)

lemma upload_file_Inr:
  "upload_file E f b k md w = (Inr u, w1) \<longleftrightarrow>
     (\<exists>bs. tmp_files w f = Some bs \<and> upload_fault E k = None \<and>
        w1 = w\<lparr>s3_objects := (s3_objects w)((b, k) \<mapsto> bs),
               s3_metadata := (s3_metadata w)((b, k) \<mapsto> md),
               trace := trace w @ [Upload_file f b k md]\<rparr>)"
  by (auto simp: upload_file_def Let_def record_step_def split: option.splits sum.splits)

lemma upload_file_Inl:
  "upload_file E f b k md w = (Inl e, w1) \<longleftrightarrow>
     w1 = w\<lparr>trace := trace w @ [Upload_file f b k md]\<rparr> \<and>
     (tmp_files w f = None \<and> e = FileNotFoundError \<or>
      (\<exists>bs. tmp_files w f = Some bs \<and> upload_fault E k = Some e))"
  by (auto simp: upload_file_def Let_def record_step_def split: option.splits sum.splits)

lemma compute_reduction_eq:
  "compute_reduction r o' w = (res, w1) \<longleftrightarrow>
     reduction_percentage r o' = res \<and> w1 = w\<lparr>trace := trace w @ [Compute_reduction r o']\<rparr>"
  by (auto simp: compute_reduction_def record_step_def)

lemma put_item_Inr:
  "put_item E it w = (Inr u, w1) \<longleftrightarrow>
     put_item_fault E (OriginalObjectKey it) = None \<and>
     w1 = w\<lparr>hala_db := hala_db w @ [it], trace := trace w @ [Put_item it]\<rparr>"
  by (auto simp: put_item_def Let_def record_step_def split: option.splits sum.splits)

lemma put_item_Inl:
  "put_item E it w = (Inl e, w1) \<longleftrightarrow>
     put_item_fault E (OriginalObjectKey it) = Some e \<and> w1 = w\<lparr>trace := trace w @ [Put_item it]\<rparr>"
  by (auto simp: put_item_def Let_def record_step_def split: option.splits sum.splits)

lemma cleanup_frame:
  "hala_db (cleanup E d u w) = hala_db w"
  "s3_objects (cleanup E d u w) = s3_objects w"
  "uuid_count (cleanup E d u w) = uuid_count w"
  "clock (cleanup E d u w) = clock w"
  by (auto simp: cleanup_def bind_def os_remove_def print_def record_step_def Let_def
      split: option.splits sum.splits prod.splits)

lemma cleanup_trace:
  "tmp_files w d \<noteq> None \<Longrightarrow> trace (cleanup E d u w) = trace w @ [Remove d, Remove u]"
  by (auto simp: cleanup_def bind_def os_remove_def print_def record_step_def Let_def
      split: option.splits sum.splits prod.splits)

lemma cleanup_tmp:
  "tmp_files w d \<noteq> None \<Longrightarrow> tmp_files (cleanup E d u w) = (tmp_files w)(d := None, u := None)"
  by (auto simp: cleanup_def bind_def os_remove_def print_def record_step_def Let_def fun_eq_iff
      split: option.splits sum.splits prod.splits)

lemmas step_Inr = bind_Inr new_uuid_eq utcnow_eq download_file_Inr get_image_metadata_Inr
  resize_image_Inr upload_file_Inr compute_reduction_eq put_item_Inr

lemma reduction_percentage_Inl:
  "reduction_percentage r o' = Inl e \<longleftrightarrow> o' = 0 \<and> e = ZeroDivisionError"
  by (auto simp: reduction_percentage_def)

lemma reduction_percentage_Inr:
  "reduction_percentage r o' = Inr p \<longleftrightarrow>
     o' \<noteq> 0 \<and> p = reduction r o'"
  by (auto simp: reduction_percentage_def)

lemmas step_Inl = bind_Inl download_file_Inl get_image_metadata_Inl resize_image_Inl
  upload_file_Inl put_item_Inl reduction_percentage_Inl

section \<open>The loop body, path by path\<close>

text \<open>
  If the body returns, every step returned, and the state is the initial one with the resized
  object stored, one item added, nine steps made and both local files removed.
\<close>

lemma try_body_Inr:
  fixes E rec w
  defines "b \<equiv> bucket_name rec"
    and "k \<equiv> unquote_plus (key rec)"
    and "d \<equiv> download_path_of (uuid4 E (uuid_count w)) (basename (unquote_plus (key rec)))"
    and "u \<equiv> upload_path_of (basename (unquote_plus (key rec)))"
    and "rk \<equiv> resized_object_key_of (basename (unquote_plus (key rec)))"
  assumes "try_body E rec w = (Inr x, w')"
  shows "\<exists>bs img img' out img2 red md it.
     s3_objects w (b, k) = Some bs \<and>
     image_open E bs = Inr img \<and>
     thumbnail E (half_box img) img = Inr img' \<and>
     save E img' u = Inr out \<and>
     image_open E out = Inr img2 \<and>
     upload_fault E rk = None \<and>
     put_item_fault E k = None \<and>
     reduction_percentage (length out) (length bs) = Inr red \<and>
     it = \<lparr>resource_id = uuid4 E (Suc (uuid_count w)),
         EventTime = eventTime rec,
         EventType = eventName rec,
         OriginalBucket = b,
         OriginalObjectKey = k,
         OriginalSize = (case object_size rec of None \<Rightarrow> - 1 | Some n \<Rightarrow> n),
         OriginalWidth = int (im_width img),
         OriginalHeight = int (im_height img),
         OriginalFormat = im_format img,
         OriginalMode = im_mode img,
         OriginalFileSize = int (length bs),
         ResizedBucket = ''dest-bucket-image-out'',
         ResizedObjectKey = rk,
         ResizedWidth = int (im_width img2),
         ResizedHeight = int (im_height img2),
         ResizedFormat = im_format img2,
         ResizedMode = im_mode img2,
         ResizedFileSize = int (length out),
         ProcessingTime = isoformat E (Suc (clock w)),
         ReductionPercentage = red,
         DimensionReduction =
           dimension_reduction (im_width img, im_height img) (im_width img', im_height img'),
         EventSource = ''aws:s3'',
         AWSRegion = (case awsRegion rec of None \<Rightarrow> [] | Some s \<Rightarrow> s),
         EventVersion = (case eventVersion rec of None \<Rightarrow> [] | Some s \<Rightarrow> s)\<rparr> \<and>
     md = [(''original_filename'', basename k), (''original_bucket'', b),
           (''resized_dimensions'', dimensions (im_width img', im_height img')),
           (''processing_time'', isoformat E (clock w))] \<and>
     hala_db w' = hala_db w @ [it] \<and>
     trace w' = trace w @
       [Download_file b k d, Get_image_metadata d, Resize_image d u, Get_image_metadata u,
        Upload_file u ''dest-bucket-image-out'' rk md,
        Compute_reduction (length out) (length bs), Put_item it, Remove d, Remove u] \<and>
     s3_objects w' = (s3_objects w)((''dest-bucket-image-out'', rk) \<mapsto> out) \<and>
     tmp_files w' = (tmp_files w)(d := None, u := None)"
  using assms(6)
  unfolding try_body_def Let_def b_def k_def d_def u_def rk_def
  by (auto simp: step_Inr cleanup_frame cleanup_trace cleanup_tmp print_def)

text \<open>
  If the body raises, the table is as before, and the trace tells which step raised. After
  the download the local copy of the original is still there.
\<close>

lemma try_body_Inl:
  fixes E rec w
  defines "b \<equiv> bucket_name rec"
    and "k \<equiv> unquote_plus (key rec)"
    and "d \<equiv> download_path_of (uuid4 E (uuid_count w)) (basename (unquote_plus (key rec)))"
    and "u \<equiv> upload_path_of (basename (unquote_plus (key rec)))"
    and "rk \<equiv> resized_object_key_of (basename (unquote_plus (key rec)))"
  assumes "try_body E rec w = (Inl e, w')"
  shows "hala_db w' = hala_db w \<and>
    (trace w' = trace w @ [Download_file b k d] \<and> s3_objects w (b, k) = None \<and> e = ClientError
     \<or> (\<exists>bs. s3_objects w (b, k) = Some bs \<and> tmp_files w' d \<noteq> None \<and>
          (trace w' = trace w @ [Download_file b k d, Get_image_metadata d]
             \<and> image_open E bs = Inl e
           \<or> trace w' = trace w @ [Download_file b k d, Get_image_metadata d, Resize_image d u]
                \<and> (\<exists>img. image_open E bs = Inr img)
           \<or> trace w' = trace w @ [Download_file b k d, Get_image_metadata d, Resize_image d u,
                Get_image_metadata u] \<and> (\<exists>img. image_open E bs = Inr img)
           \<or> (\<exists>md. trace w' = trace w @ [Download_file b k d, Get_image_metadata d, Resize_image d u,
                Get_image_metadata u, Upload_file u ''dest-bucket-image-out'' rk md]
                \<and> upload_fault E rk = Some e \<and> (\<exists>img. image_open E bs = Inr img))
           \<or> (\<exists>md r. trace w' = trace w @ [Download_file b k d, Get_image_metadata d, Resize_image d u,
                Get_image_metadata u, Upload_file u ''dest-bucket-image-out'' rk md,
                Compute_reduction r (length bs)] \<and> bs = [] \<and> e = ZeroDivisionError
                \<and> (\<exists>img. image_open E bs = Inr img))
           \<or> (\<exists>md r it. trace w' = trace w @ [Download_file b k d, Get_image_metadata d, Resize_image d u,
                Get_image_metadata u, Upload_file u ''dest-bucket-image-out'' rk md,
                Compute_reduction r (length bs), Put_item it] \<and> bs \<noteq> [] \<and> OriginalObjectKey it = k
                \<and> put_item_fault E k = Some e \<and> (\<exists>img. image_open E bs = Inr img)))))"
  using assms(6)
  unfolding try_body_def Let_def b_def k_def d_def u_def rk_def
  apply (simp add: step_Inl step_Inr reduction_percentage_Inr)
  apply (elim disjE exE conjE)
  apply simp_all
  done

section \<open>The handler around the body, and the loop\<close>

lemma process_record_Inr:
  "process_record E rec w = (Inr x, w') \<longleftrightarrow> try_body E rec w = (Inr x, w')"
  by (auto simp: process_record_def split: prod.splits sum.splits)

lemma process_record_Inl:
  "process_record E rec w = (Inl e, w') \<longleftrightarrow>
     (\<exists>w1. try_body E rec w = (Inl e, w1) \<and>
        w' = print (''Error processing '' @ unquote_plus (key rec) @ '': '' @ str_exc E e) w1)"
  by (auto simp: process_record_def split: prod.splits sum.splits)

lemma for_records_append:
  "for_records E (xs @ ys) w =
     (case for_records E xs w of
        (Inl e, w') \<Rightarrow> (Inl e, w')
      | (Inr _, w') \<Rightarrow> for_records E ys w')"
  by (induction xs arbitrary: w) (auto split: prod.splits sum.splits)

lemma for_records_items:
  "for_records E recs w = (Inr x, w') \<Longrightarrow> length (hala_db w') = length (hala_db w) + length recs"
proof (induction recs arbitrary: w)
  case Nil
  then show ?case by simp
next
  case (Cons rec recs)
  from Cons.prems obtain u w1 where
    one: "process_record E rec w = (Inr u, w1)" and rest: "for_records E recs w1 = (Inr x, w')"
    by (auto split: prod.splits sum.splits)
  from one have "try_body E rec w = (Inr u, w1)"
    by (simp add: process_record_Inr)
  then obtain it where "hala_db w1 = hala_db w @ [it]"
    using try_body_Inr by blast
  with Cons.IH [OF rest] show ?case by simp
qed

lemma trace_print [simp]: "trace (print s w) = trace w"
  and hala_db_print [simp]: "hala_db (print s w) = hala_db w"
  and tmp_files_print [simp]: "tmp_files (print s w) = tmp_files w"
  by (simp_all add: print_def)

lemma steps_of_eq:
  "process_record E rec w = (r, w') \<Longrightarrow> steps_of E rec w = drop (length (trace w)) (trace w')"
  by (simp add: steps_of_def)

lemma process_record_cases:
  obtains (returns) x w' where "process_record E rec w = (Inr x, w')"
  | (raises) e w' where "process_record E rec w = (Inl e, w')"
  by (cases "process_record E rec w") (metis sum.exhaust_sel)

text \<open>The equations that evaluate a run in the small environment.\<close>

lemmas run_defs = lambda_handler_def process_record_def try_body_def bind_def new_uuid_def
  utcnow_def download_file_def upload_file_def put_item_def os_remove_def get_image_metadata_def
  resize_image_def compute_reduction_def record_step_def print_def cleanup_def Let_def
  steps_of_def test_env_def lenient_env_def test_world_def test_record_def
  unquote_plus_def plus_to_space_def is_hex_def basename_def half_box_def
  download_path_of_def upload_path_of_def resized_object_key_of_def reduction_percentage_def

section \<open>Decoding undoes the escaping\<close>

lemma unquote_plain: "c \<noteq> CHR ''%'' \<Longrightarrow> unquote (c # s) = c # unquote s"
proof (cases s)
  case Nil
  then show ?thesis by simp
next
  case (Cons a t)
  assume "c \<noteq> CHR ''%''"
  with Cons show ?thesis by (cases t) simp_all
qed

lemma hex_digit_hex:
  assumes "d < 16"
  shows "is_hex (hex_digit d) \<and> hex_val (hex_digit d) = d \<and> hex_digit d \<noteq> CHR ''+''"
proof -
  from assms have "d = 0 \<or> d = 1 \<or> d = 2 \<or> d = 3 \<or> d = 4 \<or> d = 5 \<or> d = 6 \<or> d = 7 \<or> d = 8
      \<or> d = 9 \<or> d = 10 \<or> d = 11 \<or> d = 12 \<or> d = 13 \<or> d = 14 \<or> d = 15"
    by arith
  then show ?thesis
    by (elim disjE) (simp_all add: hex_digit_def is_hex_def hex_val_def)
qed

lemma always_safe_plain: "always_safe c \<Longrightarrow> c \<noteq> CHR ''%'' \<and> c \<noteq> CHR ''+''"
  by (auto simp: always_safe_def)

lemma unquote_quote_char:
  assumes "CHR ''+'' \<notin> set safe" and "CHR ''%'' \<notin> set safe"
  shows "unquote (map plus_to_space (quote_char safe c) @ t) = c # unquote t"
proof -
  have lt: "(of_char c :: nat) div 16 < 16" "(of_char c :: nat) mod 16 < 16"
    by (simp_all add: less_mult_imp_div_less)
  note h1 = hex_digit_hex [OF lt(1)] and h2 = hex_digit_hex [OF lt(2)]
  show ?thesis
  proof (cases "c = CHR '' ''")
    case True
    then show ?thesis
      by (simp add: quote_char_def plus_to_space_def unquote_plain)
  next
    case False
    show ?thesis
    proof (cases "always_safe c \<or> c \<in> set safe")
      case True
      with assms always_safe_plain [of c] have "c \<noteq> CHR ''%'' \<and> c \<noteq> CHR ''+''"
        by auto
      with False True show ?thesis
        by (simp add: quote_char_def plus_to_space_def unquote_plain)
    next
      case unsafe: False
      with False h1 h2 show ?thesis
        by (simp add: quote_char_def plus_to_space_def)
    qed
  qed
qed

lemma unquote_plus_quote_plus:
  assumes "CHR ''+'' \<notin> set safe" and "CHR ''%'' \<notin> set safe"
  shows "unquote_plus (quote_plus safe s) = s"
proof (induction s)
  case Nil
  then show ?case by (simp add: unquote_plus_def quote_plus_def)
next
  case (Cons c s)
  then show ?case
    using unquote_quote_char [OF assms, of c "map plus_to_space (quote_plus safe s)"]
    by (simp add: unquote_plus_def quote_plus_def)
qed

section \<open>The size attribute does not steer the body\<close>

lemma fst_bind_cong:
  "(\<And>x w1. m w = (Inr x, w1) \<Longrightarrow> fst (f x w1) = fst (g x w1)) \<Longrightarrow>
   fst (bind m f w) = fst (bind m g w)"
  by (auto simp: bind_def split: prod.splits sum.splits)

lemma fst_bind_put_item:
  "OriginalObjectKey it1 = OriginalObjectKey it2 \<Longrightarrow>
   fst (bind (put_item E it1) (\<lambda>_ w'. (Inr (), h w')) w)
     = fst (bind (put_item E it2) (\<lambda>_ w'. (Inr (), h w')) w)"
  by (auto simp: bind_def put_item_def Let_def split: prod.splits sum.splits option.splits)

lemma try_body_size_irrelevant:
  "fst (try_body E (rec\<lparr>object_size := sz\<rparr>) w) = fst (try_body E rec w)"
  unfolding try_body_def Let_def
  apply simp
  apply (rule fst_bind_cong | simp only: split_paired_all prod.case)+
  apply (rule fst_bind_put_item)
  apply simp
  done

lemma process_record_size_irrelevant:
  "fst (process_record E (rec\<lparr>object_size := sz\<rparr>) w) = fst (process_record E rec w)"
  using try_body_size_irrelevant [of E sz rec w]
  by (auto simp: process_record_def split: prod.splits sum.splits)

section \<open>The steps of one record\<close>

lemma steps_of_returns:
  assumes "process_record E rec w = (Inr x, w')"
  shows "\<exists>r n md it.
     steps_of E rec w =
       [Download_file (bucket_name rec) (unquote_plus (key rec))
          (download_path_of (uuid4 E (uuid_count w)) (basename (unquote_plus (key rec)))),
        Get_image_metadata (download_path_of (uuid4 E (uuid_count w)) (basename (unquote_plus (key rec)))),
        Resize_image (download_path_of (uuid4 E (uuid_count w)) (basename (unquote_plus (key rec))))
          (upload_path_of (basename (unquote_plus (key rec)))),
        Get_image_metadata (upload_path_of (basename (unquote_plus (key rec)))),
        Upload_file (upload_path_of (basename (unquote_plus (key rec)))) ''dest-bucket-image-out''
          (resized_object_key_of (basename (unquote_plus (key rec)))) md,
        Compute_reduction r n, Put_item it,
        Remove (download_path_of (uuid4 E (uuid_count w)) (basename (unquote_plus (key rec)))),
        Remove (upload_path_of (basename (unquote_plus (key rec))))]
     \<and> reduction_percentage r n = Inr (ReductionPercentage it)
     \<and> OriginalObjectKey it = unquote_plus (key rec)
     \<and> hala_db w' = hala_db w @ [it]"
proof -
  from assms have "try_body E rec w = (Inr x, w')"
    by (simp add: process_record_Inr)
  from try_body_Inr [OF this] steps_of_eq [OF assms] show ?thesis
    by (elim exE conjE) simp
qed

lemma steps_of_raises:
  fixes E rec w
  defines "b \<equiv> bucket_name rec"
    and "k \<equiv> unquote_plus (key rec)"
    and "d \<equiv> download_path_of (uuid4 E (uuid_count w)) (basename (unquote_plus (key rec)))"
    and "u \<equiv> upload_path_of (basename (unquote_plus (key rec)))"
    and "rk \<equiv> resized_object_key_of (basename (unquote_plus (key rec)))"
  assumes "process_record E rec w = (Inl e, w')"
  shows "steps_of E rec w = [Download_file b k d]
    \<or> steps_of E rec w = [Download_file b k d, Get_image_metadata d]
    \<or> steps_of E rec w = [Download_file b k d, Get_image_metadata d, Resize_image d u]
    \<or> steps_of E rec w = [Download_file b k d, Get_image_metadata d, Resize_image d u, Get_image_metadata u]
    \<or> (\<exists>md. steps_of E rec w = [Download_file b k d, Get_image_metadata d, Resize_image d u,
          Get_image_metadata u, Upload_file u ''dest-bucket-image-out'' rk md])
    \<or> (\<exists>md r n. steps_of E rec w = [Download_file b k d, Get_image_metadata d, Resize_image d u,
          Get_image_metadata u, Upload_file u ''dest-bucket-image-out'' rk md, Compute_reduction r n])
    \<or> (\<exists>md r n it. steps_of E rec w = [Download_file b k d, Get_image_metadata d, Resize_image d u,
          Get_image_metadata u, Upload_file u ''dest-bucket-image-out'' rk md, Compute_reduction r n,
          Put_item it] \<and> OriginalObjectKey it = k)"
proof -
  from assms(6) obtain w1 where body: "try_body E rec w = (Inl e, w1)"
    and w': "w' = print (''Error processing '' @ unquote_plus (key rec) @ '': '' @ str_exc E e) w1"
    by (auto simp: process_record_Inl)
  have steps: "steps_of E rec w = drop (length (trace w)) (trace w1)"
    using steps_of_eq [OF assms(6)] w' by simp
  from try_body_Inl [OF body] show ?thesis
    unfolding steps b_def k_def d_def u_def rk_def
    by (elim conjE disjE exE) simp_all
qed

section \<open>Rounding: to 53 bits, to two decimals, towards zero\<close>

lemma round_half_even_cases:
  obtains (down) "round_half_even y = \<lfloor>y\<rfloor>" and "y - of_int \<lfloor>y\<rfloor> < 1 / 2"
  | (up) "round_half_even y = \<lfloor>y\<rfloor> + 1" and "1 / 2 < y - of_int \<lfloor>y\<rfloor>"
  | (tie_even) "round_half_even y = \<lfloor>y\<rfloor>" and "y - of_int \<lfloor>y\<rfloor> = 1 / 2" and "even \<lfloor>y\<rfloor>"
  | (tie_odd) "round_half_even y = \<lfloor>y\<rfloor> + 1" and "y - of_int \<lfloor>y\<rfloor> = 1 / 2" and "odd \<lfloor>y\<rfloor>"
proof (cases "y - of_int \<lfloor>y\<rfloor> < 1 / 2")
  case True
  then show ?thesis
    by (intro down) (simp_all add: round_half_even_def Let_def)
next
  case False
  show ?thesis
  proof (cases "1 / 2 < y - of_int \<lfloor>y\<rfloor>")
    case True
    with False show ?thesis
      by (intro up) (simp_all add: round_half_even_def Let_def)
  next
    case nup: False
    with False have tie: "y - of_int \<lfloor>y\<rfloor> = 1 / 2"
      by linarith
    show ?thesis
    proof (cases "even \<lfloor>y\<rfloor>")
      case True
      with tie show ?thesis
        by (intro tie_even) (simp_all add: round_half_even_def Let_def)
    next
      case False
      with tie show ?thesis
        by (intro tie_odd) (simp_all add: round_half_even_def Let_def)
    qed
  qed
qed

lemma round_half_even_upper: "of_int (round_half_even y) \<le> y + 1 / 2"
proof (cases rule: round_half_even_cases [of y])
  case down
  have "of_int \<lfloor>y\<rfloor> \<le> y" by (rule of_int_floor_le)
  then have "of_int \<lfloor>y\<rfloor> \<le> y + 1 / 2" by linarith
  with down(1) show ?thesis by (simp only:)
next
  case up
  then have "of_int (\<lfloor>y\<rfloor> + 1) \<le> y + 1 / 2" by simp
  with up(1) show ?thesis by (simp only:)
next
  case tie_even
  then have "of_int \<lfloor>y\<rfloor> \<le> y + 1 / 2" by linarith
  with tie_even(1) show ?thesis by (simp only:)
next
  case tie_odd
  then have "of_int (\<lfloor>y\<rfloor> + 1) \<le> y + 1 / 2" by simp
  with tie_odd(1) show ?thesis by (simp only:)
qed

lemma round_half_even_lower: "y - 1 / 2 \<le> of_int (round_half_even y)"
proof (cases rule: round_half_even_cases [of y])
  case down
  then have "y - 1 / 2 \<le> of_int \<lfloor>y\<rfloor>" by linarith
  with down(1) show ?thesis by (simp only:)
next
  case up
  have "y < of_int \<lfloor>y\<rfloor> + 1" by (rule floor_correct [THEN conjunct2, simplified])
  then have "y - 1 / 2 \<le> of_int (\<lfloor>y\<rfloor> + 1)" by simp
  with up(1) show ?thesis by (simp only:)
next
  case tie_even
  then have "y - 1 / 2 \<le> of_int \<lfloor>y\<rfloor>" by linarith
  with tie_even(1) show ?thesis by (simp only:)
next
  case tie_odd
  then have "y - 1 / 2 \<le> of_int (\<lfloor>y\<rfloor> + 1)" by simp
  with tie_odd(1) show ?thesis by (simp only:)
qed

lemma round_half_even_tie:
  assumes "of_int (round_half_even y) = y + 1 / 2 \<or> of_int (round_half_even y) = y - 1 / 2"
  shows "even (round_half_even y)"
proof (cases rule: round_half_even_cases [of y])
  case down
  have fl: "of_int \<lfloor>y\<rfloor> \<le> y" by (rule of_int_floor_le)
  from assms have "of_int \<lfloor>y\<rfloor> = y + 1 / 2 \<or> of_int \<lfloor>y\<rfloor> = y - 1 / 2"
    by (simp only: down(1))
  from this fl down(2) have False by (elim disjE; linarith)
  then show ?thesis ..
next
  case up
  have fl: "y < of_int \<lfloor>y\<rfloor> + 1" by (rule floor_correct [THEN conjunct2, simplified])
  from assms have "of_int (\<lfloor>y\<rfloor> + 1) = y + 1 / 2 \<or> of_int (\<lfloor>y\<rfloor> + 1) = y - 1 / 2"
    by (simp only: up(1))
  then have "of_int \<lfloor>y\<rfloor> + 1 = y + 1 / 2 \<or> of_int \<lfloor>y\<rfloor> + 1 = y - 1 / 2"
    by simp
  from this fl up(2) have False by (elim disjE; linarith)
  then show ?thesis ..
next
  case tie_even
  then show ?thesis by simp
next
  case tie_odd
  then show ?thesis by simp
qed

lemma ilog2_bounds:
  "0 < x \<Longrightarrow> 2 powi ilog2 x \<le> x \<and> x < 2 powi (ilog2 x + 1)"
proof (induction x rule: ilog2.induct)
  case (1 x)
  show ?case
  proof (cases "2 \<le> x")
    case True
    with "1.prems" have ih: "2 powi ilog2 (x / 2) \<le> x / 2 \<and> x / 2 < 2 powi (ilog2 (x / 2) + 1)"
      by (intro "1.IH"(1)) simp_all
    from True "1.prems" have eq: "ilog2 x = ilog2 (x / 2) + 1"
      by (subst ilog2.simps) simp
    from ih show ?thesis
      unfolding eq by (simp add: power_int_add)
  next
    case False
    show ?thesis
    proof (cases "x < 1")
      case True
      with False "1.prems" have ih:
        "2 powi ilog2 (2 * x) \<le> 2 * x \<and> 2 * x < 2 powi (ilog2 (2 * x) + 1)"
        by (intro "1.IH"(2)) simp_all
      from True False "1.prems" have eq: "ilog2 x = ilog2 (2 * x) - 1"
        by (subst ilog2.simps) simp
      from ih show ?thesis
        unfolding eq by (simp add: power_int_add power_int_diff)
    next
      case ge1: False
      with False "1.prems" have "ilog2 x = 0"
        by (subst ilog2.simps) simp
      with False ge1 show ?thesis by simp
    qed
  qed
qed

lemma round_half_even_le: "t \<le> of_int n \<Longrightarrow> round_half_even t \<le> n"
  using round_half_even_upper [of t] by linarith

lemma round_half_even_ge: "of_int n \<le> t \<Longrightarrow> n \<le> round_half_even t"
  using round_half_even_lower [of t] by linarith

lemma round_half_even_error: "\<bar>of_int (round_half_even t) - t\<bar> \<le> 1 / 2"
  using round_half_even_lower [of t] round_half_even_upper [of t] by linarith

lemma fl_0 [simp]: "fl 0 = 0"
  using round_half_even_le [of 0 0] round_half_even_ge [of 0 0] by (simp add: fl_def)

lemma two_powi_pos: "0 < (2::rat) powi e"
  by simp

lemma fl_error: "\<bar>fl x - x\<bar> \<le> \<bar>x\<bar> / 2 ^ 53"
proof (cases "x = 0")
  case True
  then show ?thesis by simp
next
  case False
  define e where "e = ilog2 \<bar>x\<bar> - 52"
  define t where "t = x / 2 powi e"
  have pe: "0 < (2::rat) powi e" by simp
  have x: "x = t * 2 powi e"
    by (simp add: t_def)
  have fl: "fl x = of_int (round_half_even t) * 2 powi e"
    by (simp add: fl_def e_def t_def Let_def)
  have "\<bar>fl x - x\<bar> = \<bar>of_int (round_half_even t) - t\<bar> * 2 powi e"
    unfolding fl by (subst x) (simp add: abs_mult left_diff_distrib [symmetric])
  also have "\<dots> \<le> 1 / 2 * 2 powi e"
    using round_half_even_error [of t] pe by (intro mult_right_mono) simp_all
  also have "\<dots> = 2 powi (e + 52) / 2 ^ 53"
    by (simp add: power_int_add)
  also have "\<dots> \<le> \<bar>x\<bar> / 2 ^ 53"
  proof -
    from False have "0 < \<bar>x\<bar>" by simp
    from ilog2_bounds [OF this] have "2 powi (e + 52) \<le> \<bar>x\<bar>"
      by (simp add: e_def)
    then show ?thesis by (simp add: divide_right_mono)
  qed
  finally show ?thesis .
qed

lemma fl_nonneg:
  assumes "0 \<le> x"
  shows "0 \<le> fl x"
proof -
  from assms have "\<bar>x\<bar> / 2 ^ 53 \<le> x"
    by (simp add: field_simps)
  with fl_error [of x] show ?thesis
    by linarith
qed

lemma fl_nonpos:
  assumes "x \<le> 0"
  shows "fl x \<le> 0"
proof -
  from assms have "\<bar>x\<bar> / 2 ^ 53 \<le> - x"
    by (simp add: field_simps)
  with fl_error [of x] show ?thesis
    by linarith
qed

lemma ilog2_le:
  assumes "0 < x" and "x < 2 powi (n + 1)"
  shows "ilog2 x \<le> n"
proof (rule ccontr)
  assume "\<not> ilog2 x \<le> n"
  then have "n + 1 \<le> ilog2 x" by simp
  then have "(2::rat) powi (n + 1) \<le> 2 powi ilog2 x"
    by (intro power_int_increasing) simp_all
  with ilog2_bounds [OF assms(1)] assms(2) show False
    by linarith
qed

text \<open>A value that is a multiple of a small enough power of two is not crossed by rounding.\<close>

lemma fl_le_dyadic:
  assumes "0 < x" and "x \<le> of_int m * 2 powi E" and "ilog2 x - 52 \<le> E"
  shows "fl x \<le> of_int m * 2 powi E"
proof -
  define e where "e = ilog2 x - 52"
  define d where "d = nat (E - e)"
  from assms(3) have E: "E = e + int d"
    by (simp add: d_def e_def)
  have pe: "0 < (2::rat) powi e" by simp
  have split: "(2::rat) powi E = 2 powi e * 2 ^ d"
    unfolding E by (simp add: power_int_add)
  have "x / 2 powi e \<le> of_int m * 2 powi E / 2 powi e"
    using assms(2) pe by (simp add: divide_right_mono)
  also have "\<dots> = of_int (m * 2 ^ d)"
    unfolding split by simp
  finally have "round_half_even (x / 2 powi e) \<le> m * 2 ^ d"
    by (rule round_half_even_le)
  then have "rat_of_int (round_half_even (x / 2 powi e)) \<le> of_int (m * 2 ^ d)"
    by (simp only: of_int_le_iff)
  then have "rat_of_int (round_half_even (x / 2 powi e)) * 2 powi e \<le> of_int (m * 2 ^ d) * 2 powi e"
    using pe by (simp only: mult_le_cancel_right_pos)
  also have "\<dots> = of_int m * 2 powi E"
    unfolding split by simp
  finally show ?thesis
    using assms(1) by (simp add: fl_def e_def Let_def)
qed

lemma fl_le_1:
  assumes "x \<le> 1"
  shows "fl x \<le> 1"
proof (cases "0 < x")
  case True
  from True assms have "ilog2 x \<le> 0"
    by (intro ilog2_le) simp_all
  with True assms fl_le_dyadic [of x "2 ^ 52" "- 52"] show ?thesis
    by simp
next
  case False
  then have "fl x \<le> 0" by (intro fl_nonpos) simp
  then show ?thesis by simp
qed

lemma fl_le_100:
  assumes "x \<le> 100"
  shows "fl x \<le> 100"
proof (cases "0 < x")
  case True
  from True assms have "ilog2 x \<le> 6"
    by (intro ilog2_le) simp_all
  with True assms fl_le_dyadic [of x "100 * 2 ^ 46" "- 46"] show ?thesis
    by simp
next
  case False
  then have "fl x \<le> 0" by (intro fl_nonpos) simp
  then show ?thesis by simp
qed

lemma py_int_le: "y \<le> of_int n \<Longrightarrow> 0 \<le> n \<Longrightarrow> py_int y \<le> n"
  unfolding py_int_def by (auto simp: floor_le_iff ceiling_le_iff)


lemma reduction_le_100: "reduction resized original \<le> 100"
proof -
  define q where "q = fl (of_nat resized / of_nat original)"
  define s where "s = fl (1 - q)"
  define x where "x = fl (s * 100)"
  define k where "k = round_half_even (x * 100)"
  have "0 \<le> q"
    unfolding q_def by (intro fl_nonneg) simp
  then have "s \<le> 1"
    unfolding s_def by (intro fl_le_1) simp
  then have "x \<le> 100"
    unfolding x_def by (intro fl_le_100) simp
  then have "k \<le> 10000"
    unfolding k_def by (intro round_half_even_le) simp
  then have "rat_of_int k \<le> 10000"
    by linarith
  then have "fl (of_int k / 100) \<le> 100"
    by (intro fl_le_100) simp
  then have "py_int (fl (of_int k / 100)) \<le> 100"
    by (intro py_int_le) simp_all
  then show ?thesis
    by (simp add: reduction_def py_round2_def k_def x_def s_def q_def)
qed

lemma reduction_near:
  assumes "0 < original" and "resized \<le> original"
  shows "0 \<le> reduction resized original"
    and "nearest_percent resized original - 1 \<le> reduction resized original"
    and "reduction resized original \<le> nearest_percent resized original"
proof -
  define a :: rat where "a = of_nat resized / of_nat original"
  define q where "q = fl a"
  define s where "s = fl (1 - q)"
  define x where "x = fl (s * 100)"
  define k where "k = round_half_even (x * 100)"
  define y where "y = fl (of_int k / 100)"
  define u :: rat where "u = 1 / 2 ^ 53"
  have u: "u = 1 / 9007199254740992" by (simp add: u_def)
  have a: "0 \<le> a" "a \<le> 1"
    using assms by (simp_all add: a_def)
  have q0: "0 \<le> q" unfolding q_def using a by (intro fl_nonneg)
  have q1: "q \<le> 1" unfolding q_def using a by (intro fl_le_1)
  have qe: "\<bar>q - a\<bar> \<le> u"
  proof -
    have "\<bar>q - a\<bar> \<le> \<bar>a\<bar> / 2 ^ 53" unfolding q_def by (rule fl_error)
    also have "\<dots> \<le> 1 / 2 ^ 53" using a by (intro divide_right_mono) simp_all
    finally show ?thesis by (simp add: u_def)
  qed
  have s0: "0 \<le> s" unfolding s_def using q1 by (intro fl_nonneg) simp
  have s1: "s \<le> 1" unfolding s_def using q0 by (intro fl_le_1) simp
  have se: "\<bar>s - (1 - q)\<bar> \<le> u"
  proof -
    have "\<bar>s - (1 - q)\<bar> \<le> \<bar>1 - q\<bar> / 2 ^ 53" unfolding s_def by (rule fl_error)
    also have "\<dots> \<le> 1 / 2 ^ 53" using q0 q1 by (intro divide_right_mono) simp_all
    finally show ?thesis by (simp add: u_def)
  qed
  have x0: "0 \<le> x" unfolding x_def using s0 by (intro fl_nonneg) simp
  have x1: "x \<le> 100" unfolding x_def using s1 by (intro fl_le_100) simp
  have xe: "\<bar>x - s * 100\<bar> \<le> 100 * u"
  proof -
    have "\<bar>x - s * 100\<bar> \<le> \<bar>s * 100\<bar> / 2 ^ 53" unfolding x_def by (rule fl_error)
    also have "\<dots> \<le> 100 / 2 ^ 53" using s0 s1 by (intro divide_right_mono) simp_all
    finally show ?thesis by (simp add: u_def)
  qed
  have k0: "0 \<le> k" unfolding k_def using x0 by (intro round_half_even_ge) simp
  have k1: "k \<le> 10000" unfolding k_def using x1 by (intro round_half_even_le) simp
  have ke: "\<bar>of_int k - x * 100\<bar> \<le> 1 / 2"
    unfolding k_def by (rule round_half_even_error)
  have kr: "(0::rat) \<le> of_int k / 100" "rat_of_int k / 100 \<le> 100"
    using k0 k1 by simp_all
  have y0: "0 \<le> y" unfolding y_def using kr by (intro fl_nonneg)
  have ye: "\<bar>y - of_int k / 100\<bar> \<le> 100 * u"
  proof -
    have "\<bar>y - of_int k / 100\<bar> \<le> \<bar>rat_of_int k / 100\<bar> / 2 ^ 53" unfolding y_def by (rule fl_error)
    also have "\<dots> \<le> 100 / 2 ^ 53" using kr by (intro divide_right_mono) simp_all
    finally show ?thesis by (simp add: u_def)
  qed
  define X where "X = (1 - a) * 100"
  have near: "\<bar>y - X\<bar> \<le> 1 / 200 + 400 * u"
  proof -
    from qe have 1: "q - a \<le> u" "a - q \<le> u" by linarith+
    from se have 2: "s - (1 - q) \<le> u" "(1 - q) - s \<le> u" by linarith+
    from xe have 3: "x - s * 100 \<le> 100 * u" "s * 100 - x \<le> 100 * u" by linarith+
    from ke have 4: "of_int k / 100 - x \<le> 1 / 200" "x - of_int k / 100 \<le> 1 / 200" by linarith+
    from ye have 5: "y - of_int k / 100 \<le> 100 * u" "of_int k / 100 - y \<le> 100 * u" by linarith+
    have X: "X = 100 - 100 * a" by (simp add: X_def algebra_simps)
    from 1 2 3 4 5 have "y - X \<le> 1 / 200 + 400 * u" "X - y \<le> 1 / 200 + 400 * u"
      unfolding X u by linarith+
    then show ?thesis by linarith
  qed
  have red: "reduction resized original = \<lfloor>y\<rfloor>"
    using y0 by (simp add: reduction_def py_round2_def py_int_def y_def k_def x_def s_def q_def a_def)
  have np: "nearest_percent resized original = \<lfloor>X + 1 / 2\<rfloor>"
    by (simp add: nearest_percent_def round_def X_def a_def)
  show "0 \<le> reduction resized original"
    unfolding red using y0 by simp
  show "nearest_percent resized original - 1 \<le> reduction resized original"
    unfolding red np using near u by linarith
  show "reduction resized original \<le> nearest_percent resized original"
    unfolding red np using near u by linarith
qed

text \<open>Evaluation of line 105 at given sizes.\<close>

lemma floor_rat_numeral: "\<lfloor>numeral a / numeral b :: rat\<rfloor> = numeral a div numeral b"
  by (metis floor_divide_of_int_eq of_int_numeral)

lemma floor_rat_minus_numeral:
  "\<lfloor>- (numeral a / numeral b) :: rat\<rfloor> = - numeral a div numeral b"
  by (metis floor_divide_of_int_eq minus_divide_left of_int_minus of_int_numeral)

lemmas float_eval = reduction_def py_round2_def py_int_def fl_def Let_def ilog2.simps
  round_half_even_def floor_rat_numeral floor_rat_minus_numeral ceiling_def

text \<open>
  Sizes at which the percentage has a five as its third decimal, as a decimal fraction: the
  double is not the decimal, and \<open>round\<close> sees the double.
\<close>

lemma reduction_at_decimal_ties:
  "reduction 10001 20000 = 49" "reduction 20199 20000 = 0" "reduction 801 20000 = 95"
  by (simp_all add: float_eval)

section \<open>The decimal numeral of a number\<close>

lemma digit_char_digit:
  assumes "d < 10"
  shows "(of_char (digit_char d) :: nat) = 48 + d \<and> digit_char d \<in> set ''0123456789''"
proof -
  from assms have "d = 0 \<or> d = 1 \<or> d = 2 \<or> d = 3 \<or> d = 4 \<or> d = 5 \<or> d = 6 \<or> d = 7 \<or> d = 8
      \<or> d = 9"
    by arith
  then show ?thesis
    by (elim disjE) (simp_all add: digit_char_def)
qed

lemma decimal_value_snoc:
  "decimal_value (s @ [c]) = 10 * decimal_value s + (of_char c - 48)"
  by (simp add: decimal_value_def)

lemma str_nat_decimal:
  "decimal_value (str_nat n) = n \<and> set (str_nat n) \<subseteq> set ''0123456789''"
proof (induction n rule: str_nat.induct)
  case (1 n)
  show ?case
  proof (cases "n < 10")
    case True
    with digit_char_digit [OF True] show ?thesis
      by (subst (1 2) str_nat.simps) (simp add: decimal_value_def)
  next
    case False
    have d: "n mod 10 < 10" by simp
    from False "1.IH" have ih: "decimal_value (str_nat (n div 10)) = n div 10"
      and digits: "set (str_nat (n div 10)) \<subseteq> set ''0123456789''"
      by simp_all
    have eq: "str_nat n = str_nat (n div 10) @ [digit_char (n mod 10)]"
      using False by (subst str_nat.simps) simp
    from digit_char_digit [OF d] ih digits show ?thesis
      unfolding eq by (simp add: decimal_value_snoc)
  qed
qed

section \<open>The claims\<close>

text \<open>
  C3. Records are processed in input order, and the first record whose processing raises
  ends the invocation: if the records before \<open>rec\<close> are processed without an exception,
  from the initial state to \<open>w1\<close>, and \<open>rec\<close> raises \<open>e\<close> from \<open>w1\<close> and leaves \<open>w2\<close>, then the
  handler on the whole batch raises this same \<open>e\<close> and leaves this same \<open>w2\<close>, whatever
  records follow: none of them is attempted, and no summary is returned.
\<close>

theorem batch_stops_at_first_failure:
  assumes "for_records E before w = (Inr (), w1)"
    and "process_record E rec w1 = (Inl e, w2)"
  shows "lambda_handler E \<lparr>Records = before @ rec # after\<rparr> w = (Inl e, w2)"
  using assms by (simp add: lambda_handler_def for_records_append)

theorem batch_stops_at_first_failure_witness:
  "lambda_handler test_env
     \<lparr>Records = [test_record ''cats/a+b.png''] @ test_record ''notes.txt''
                  # [test_record ''dogs/a+b.png'']\<rparr>
     test_world
   = (Inl UnidentifiedImageError,
      snd (process_record test_env (test_record ''notes.txt'')
            (snd (for_records test_env [test_record ''cats/a+b.png''] test_world))))"
proof -
  have 1: "for_records test_env [test_record ''cats/a+b.png''] test_world
    = (Inr (), snd (for_records test_env [test_record ''cats/a+b.png''] test_world))"
    by (simp add: run_defs prod_eq_iff)
  have 2: "process_record test_env (test_record ''notes.txt'')
             (snd (for_records test_env [test_record ''cats/a+b.png''] test_world))
    = (Inl UnidentifiedImageError,
       snd (process_record test_env (test_record ''notes.txt'')
             (snd (for_records test_env [test_record ''cats/a+b.png''] test_world))))"
    by (simp add: run_defs prod_eq_iff)
  show ?thesis
    by (rule batch_stops_at_first_failure [OF 1 2])
qed

text \<open>
  C9. If every record of the batch is processed without an exception, the handler returns
  status code 200 and, as its body, the JSON text with the message and with the member
  \<open>processed_count\<close>, whose value is the decimal numeral of the number of records; and this
  is the number of items the invocation has added to the table. (\<open>CHR 0x22\<close> is the double
  quote.)
\<close>

theorem full_success_returns_200:
  assumes "for_records E recs w = (Inr (), w')"
  shows "\<exists>resp. lambda_handler E \<lparr>Records = recs\<rparr> w = (Inr resp, w')
         \<and> statusCode resp = 200
         \<and> body resp =
             ''{'' @ [CHR 0x22] @ ''message'' @ [CHR 0x22] @ '': ''
             @ [CHR 0x22] @ ''Image processing completed successfully'' @ [CHR 0x22] @ '', ''
             @ [CHR 0x22] @ ''processed_count'' @ [CHR 0x22] @ '': ''
             @ str_nat (length recs) @ ''}''
         \<and> set (str_nat (length recs)) \<subseteq> set ''0123456789''
         \<and> decimal_value (str_nat (length recs)) = length recs
         \<and> length (hala_db w') = length (hala_db w) + length recs"
  using assms for_records_items [OF assms] str_nat_decimal [of "length recs"]
  by (simp add: lambda_handler_def json_dumps_body_def quoted_def)

theorem full_success_returns_200_witness:
  "fst (for_records test_env
          [test_record ''cats/a+b.png'', test_record ''dogs/a+b.png''] test_world) = Inr ()
   \<and> fst (lambda_handler test_env
          \<lparr>Records = [test_record ''cats/a+b.png'', test_record ''dogs/a+b.png'']\<rparr> test_world)
     = Inr \<lparr>statusCode = 200,
            body = ''{'' @ [CHR 0x22] @ ''message'' @ [CHR 0x22] @ '': ''
              @ [CHR 0x22] @ ''Image processing completed successfully'' @ [CHR 0x22] @ '', ''
              @ [CHR 0x22] @ ''processed_count'' @ [CHR 0x22] @ '': 2}''\<rparr>
   \<and> length (hala_db (snd (for_records test_env
          [test_record ''cats/a+b.png'', test_record ''dogs/a+b.png''] test_world))) = 2"
proof -
  have 1: "for_records test_env [test_record ''cats/a+b.png'', test_record ''dogs/a+b.png'']
             test_world
    = (Inr (), snd (for_records test_env
          [test_record ''cats/a+b.png'', test_record ''dogs/a+b.png''] test_world))"
    by (simp add: run_defs prod_eq_iff)
  have 2: "hala_db test_world = []"
    by (simp add: test_world_def)
  have 3: "str_nat (length [test_record ''cats/a+b.png'', test_record ''dogs/a+b.png'']) = ''2''"
    by (simp add: str_nat.simps digit_char_def)
  from full_success_returns_200 [OF 1] obtain resp where
    r: "lambda_handler test_env
          \<lparr>Records = [test_record ''cats/a+b.png'', test_record ''dogs/a+b.png'']\<rparr> test_world
        = (Inr resp, snd (for_records test_env
          [test_record ''cats/a+b.png'', test_record ''dogs/a+b.png''] test_world))"
    and s: "statusCode resp = 200"
    and b: "body resp =
             ''{'' @ [CHR 0x22] @ ''message'' @ [CHR 0x22] @ '': ''
             @ [CHR 0x22] @ ''Image processing completed successfully'' @ [CHR 0x22] @ '', ''
             @ [CHR 0x22] @ ''processed_count'' @ [CHR 0x22] @ '': ''
             @ str_nat (length [test_record ''cats/a+b.png'', test_record ''dogs/a+b.png''])
             @ ''}''"
    and n: "length (hala_db (snd (for_records test_env
          [test_record ''cats/a+b.png'', test_record ''dogs/a+b.png''] test_world)))
        = length (hala_db test_world)
          + length [test_record ''cats/a+b.png'', test_record ''dogs/a+b.png'']"
    by blast
  have "resp = \<lparr>statusCode = 200,
            body = ''{'' @ [CHR 0x22] @ ''message'' @ [CHR 0x22] @ '': ''
              @ [CHR 0x22] @ ''Image processing completed successfully'' @ [CHR 0x22] @ '', ''
              @ [CHR 0x22] @ ''processed_count'' @ [CHR 0x22] @ '': 2}''\<rparr>"
    using s b unfolding 3 by (cases resp) simp
  with r have 4: "fst (lambda_handler test_env
          \<lparr>Records = [test_record ''cats/a+b.png'', test_record ''dogs/a+b.png'']\<rparr> test_world)
     = Inr \<lparr>statusCode = 200,
            body = ''{'' @ [CHR 0x22] @ ''message'' @ [CHR 0x22] @ '': ''
              @ [CHR 0x22] @ ''Image processing completed successfully'' @ [CHR 0x22] @ '', ''
              @ [CHR 0x22] @ ''processed_count'' @ [CHR 0x22] @ '': 2}''\<rparr>"
    by (simp only: fst_conv)
  from 1 have "fst (for_records test_env
          [test_record ''cats/a+b.png'', test_record ''dogs/a+b.png''] test_world)
      = fst (Inr () :: error + unit, snd (for_records test_env
          [test_record ''cats/a+b.png'', test_record ''dogs/a+b.png''] test_world))"
    by (rule arg_cong)
  then have 5: "fst (for_records test_env
          [test_record ''cats/a+b.png'', test_record ''dogs/a+b.png''] test_world) = Inr ()"
    by (simp only: fst_conv)
  from n have 6: "length (hala_db (snd (for_records test_env
          [test_record ''cats/a+b.png'', test_record ''dogs/a+b.png''] test_world))) = 2"
    unfolding 2 by (simp only: list.size add_0 One_nat_def add_Suc_right add_0_right
        numeral_2_eq_2)
  from 4 5 6 show ?thesis
    by (intro conjI)
qed

text \<open>
  C7, as the specification states it: for every record whose original object has byte size 0
  the computation of the derived metrics raises a division by zero. A zero-byte object is
  not an image: \<open>Image.open\<close> raises on it (PIL's UnidentifiedImageError), and so does the
  decoder of the small environment. The record \<open>empty.png\<close> raises at the first
  \<open>get_image_metadata\<close>, line 53; line 105 is not reached and the exception is not
  ZeroDivisionError.
\<close>

theorem zero_byte_original_counterexample:
  "s3_objects test_world (''src'', ''empty.png'') = Some []
   \<and> fst (process_record test_env (test_record ''empty.png'') test_world)
       = Inl UnidentifiedImageError
   \<and> steps_of test_env (test_record ''empty.png'') test_world
       = [Download_file ''src'' ''empty.png'' ''/tmp/id0_empty.png'',
          Get_image_metadata ''/tmp/id0_empty.png'']"
  by (simp add: run_defs str_nat.simps digit_char_def)

text \<open>
  C7, amended. A record whose original object has byte size 0 is a failure for that record
  and writes no audit item: \<open>process_record\<close> raises, the table is as before and no
  \<open>put_item\<close> is among the steps. If the decoder rejects the empty file, as PIL does, the
  exception is the decoder's, raised at the first \<open>get_image_metadata\<close>, and the derived
  metrics are not computed. A division by zero is what the record raises only if it comes to
  the expression of line 105.
\<close>

theorem zero_byte_original_fails_without_audit:
  assumes "s3_objects w (bucket_name rec, unquote_plus (key rec)) = Some []"
  shows "\<exists>e w'. process_record E rec w = (Inl e, w') \<and> hala_db w' = hala_db w
           \<and> (\<forall>it. Put_item it \<notin> set (steps_of E rec w))
           \<and> ((\<exists>r n. Compute_reduction r n \<in> set (steps_of E rec w)) \<longrightarrow> e = ZeroDivisionError)
           \<and> (\<forall>err. image_open E [] = Inl err \<longrightarrow>
                 e = err
                 \<and> steps_of E rec w =
                     [Download_file (bucket_name rec) (unquote_plus (key rec))
                        (download_path_of (uuid4 E (uuid_count w))
                           (basename (unquote_plus (key rec)))),
                      Get_image_metadata
                        (download_path_of (uuid4 E (uuid_count w))
                           (basename (unquote_plus (key rec))))])"
proof (cases rule: process_record_cases [of E rec w])
  case (returns x w')
  then have "try_body E rec w = (Inr x, w')"
    by (simp add: process_record_Inr)
  from try_body_Inr [OF this] assms show ?thesis
    by (auto simp: reduction_percentage_Inr)
next
  case (raises e w')
  then obtain w1 where body: "try_body E rec w = (Inl e, w1)"
    and w': "w' = print (''Error processing '' @ unquote_plus (key rec) @ '': '' @ str_exc E e) w1"
    by (auto simp: process_record_Inl)
  have steps: "steps_of E rec w = drop (length (trace w)) (trace w1)"
    using steps_of_eq [OF raises] w' by simp
  from try_body_Inl [OF body] assms have
    "hala_db w1 = hala_db w \<and> (\<forall>it. Put_item it \<notin> set (drop (length (trace w)) (trace w1)))
       \<and> ((\<exists>r n. Compute_reduction r n \<in> set (drop (length (trace w)) (trace w1)))
            \<longrightarrow> e = ZeroDivisionError)
       \<and> (\<forall>err. image_open E [] = Inl err \<longrightarrow>
             e = err
             \<and> drop (length (trace w)) (trace w1) =
                 [Download_file (bucket_name rec) (unquote_plus (key rec))
                    (download_path_of (uuid4 E (uuid_count w))
                       (basename (unquote_plus (key rec)))),
                  Get_image_metadata
                    (download_path_of (uuid4 E (uuid_count w))
                       (basename (unquote_plus (key rec))))])"
    by (elim conjE disjE exE) simp_all
  with raises w' steps show ?thesis
    by simp
qed

theorem zero_byte_original_fails_without_audit_witness:
  "s3_objects test_world
     (bucket_name (test_record ''empty.png''), unquote_plus (key (test_record ''empty.png'')))
     = Some []
   \<and> image_open test_env [] = Inl UnidentifiedImageError
   \<and> fst (process_record test_env (test_record ''empty.png'') test_world)
       = Inl UnidentifiedImageError
   \<and> hala_db (snd (process_record test_env (test_record ''empty.png'') test_world)) = []"
proof -
  have h: "s3_objects test_world
     (bucket_name (test_record ''empty.png''), unquote_plus (key (test_record ''empty.png'')))
     = Some []"
    by (simp add: run_defs)
  have rejects: "image_open test_env [] = Inl UnidentifiedImageError"
    by (simp add: test_env_def)
  have "hala_db test_world = []"
    by (simp add: test_world_def)
  with zero_byte_original_fails_without_audit [OF h, of test_env] rejects h
  show ?thesis
    by auto
qed

text \<open>
  With a decoder that accepts every file the same record comes to line 105, and there it
  raises ZeroDivisionError: the last clause but one of the theorem is not empty.
\<close>

lemma zero_division_with_a_lenient_decoder:
  "fst (process_record lenient_env (test_record ''empty.png'') test_world) = Inl ZeroDivisionError
   \<and> Compute_reduction 2 0 \<in> set (steps_of lenient_env (test_record ''empty.png'') test_world)"
  by (simp add: run_defs)

text \<open>
  C10. A record without the optional size attribute is processed like any other: whether it
  returns or raises, and what it raises, is what the same record with a size gives. If it
  returns, the item added to the table has \<open>OriginalSize\<close> -1 and, as \<open>OriginalFileSize\<close>,
  the number of bytes of the object that was downloaded.
\<close>

theorem missing_size_recorded_as_minus_one:
  assumes "object_size rec = None"
  shows "(\<forall>n. fst (process_record E (rec\<lparr>object_size := Some n\<rparr>) w) = fst (process_record E rec w))
    \<and> (\<forall>x w'. process_record E rec w = (Inr x, w') \<longrightarrow>
          (\<exists>it bs. hala_db w' = hala_db w @ [it] \<and> OriginalSize it = - 1
             \<and> s3_objects w (bucket_name rec, unquote_plus (key rec)) = Some bs
             \<and> OriginalFileSize it = int (length bs)))"
proof (intro conjI allI impI)
  fix n
  show "fst (process_record E (rec\<lparr>object_size := Some n\<rparr>) w) = fst (process_record E rec w)"
    by (rule process_record_size_irrelevant)
next
  fix x w'
  assume "process_record E rec w = (Inr x, w')"
  then have "try_body E rec w = (Inr x, w')"
    by (simp add: process_record_Inr)
  from try_body_Inr [OF this] assms
  show "\<exists>it bs. hala_db w' = hala_db w @ [it] \<and> OriginalSize it = - 1
             \<and> s3_objects w (bucket_name rec, unquote_plus (key rec)) = Some bs
             \<and> OriginalFileSize it = int (length bs)"
    by (elim exE conjE) simp
qed

theorem missing_size_recorded_as_minus_one_witness:
  "object_size (test_record ''cats/a+b.png'') = None
   \<and> fst (process_record test_env (test_record ''cats/a+b.png'') test_world) = Inr ()
   \<and> map OriginalSize (hala_db (snd (process_record test_env (test_record ''cats/a+b.png'') test_world))) = [- 1]
   \<and> map OriginalFileSize (hala_db (snd (process_record test_env (test_record ''cats/a+b.png'') test_world))) = [16]"
proof -
  have h: "object_size (test_record ''cats/a+b.png'') = None"
    by (simp add: test_record_def)
  have run: "process_record test_env (test_record ''cats/a+b.png'') test_world
    = (Inr (), snd (process_record test_env (test_record ''cats/a+b.png'') test_world))"
    by (simp add: run_defs prod_eq_iff)
  have obj: "s3_objects test_world (bucket_name (test_record ''cats/a+b.png''),
      unquote_plus (key (test_record ''cats/a+b.png'')))
    = Some [4, 2, 9, 9, 9, 9, 9, 9, 9, 9, 9, 9, 9, 9, 9, 9]"
    by (simp add: run_defs)
  have db: "hala_db test_world = []"
    by (simp add: test_world_def)
  from missing_size_recorded_as_minus_one [OF h, of test_env test_world]
  have "\<forall>x w'. process_record test_env (test_record ''cats/a+b.png'') test_world = (Inr x, w') \<longrightarrow>
          (\<exists>it bs. hala_db w' = hala_db test_world @ [it] \<and> OriginalSize it = - 1
             \<and> s3_objects test_world (bucket_name (test_record ''cats/a+b.png''),
                  unquote_plus (key (test_record ''cats/a+b.png''))) = Some bs
             \<and> OriginalFileSize it = int (length bs))"
    by (rule conjunct2)
  with run obtain it bs where
    "hala_db (snd (process_record test_env (test_record ''cats/a+b.png'') test_world))
       = hala_db test_world @ [it]"
    and "OriginalSize it = - 1"
    and "s3_objects test_world (bucket_name (test_record ''cats/a+b.png''),
           unquote_plus (key (test_record ''cats/a+b.png''))) = Some bs"
    and "OriginalFileSize it = int (length bs)"
    by blast
  with obj db h run show ?thesis
    by (simp add: prod_eq_iff)
qed

text \<open>
  C6, as the specification states it: every record goes through the stages in the order of
  section 4.4, the derived metrics before the write to the destination bucket. The source
  evaluates the expression of line 105 while it builds the \<open>Item\<close> of \<open>put_item\<close>, after
  \<open>upload_file\<close> has returned: a record that is processed without an exception has the
  stage \<open>Store\<close> before the stage \<open>Metrics\<close>.
\<close>

theorem metrics_after_store_counterexample:
  "fst (process_record test_env (test_record ''cats/a+b.png'') test_world) = Inr ()
   \<and> map stage_of (steps_of test_env (test_record ''cats/a+b.png'') test_world)
     = [Fetch, Extract, Resize, Extract, Store, Metrics, Audit, Release, Release]
   \<and> map stage_of (steps_of test_env (test_record ''cats/a+b.png'') test_world) \<noteq> section_4_4"
  by (simp add: run_defs section_4_4_def)


text \<open>
  C6, amended. The stages of a record are an initial part of the sequence of the source:
  fetch, extract, resize, extract, store, metrics, audit, release, release. A record that
  returns goes through all of it, and the item written by \<open>put_item\<close>, which is the last
  item of the table, carries the reduction computed at the stage before it. For a record that
  raises this says in which order the steps it made were made; that it releases no local
  file is the matter of C1.
\<close>

theorem steps_follow_source_order:
  "prefix (map stage_of (steps_of E rec w)) source_order
   \<and> (\<forall>x w'. process_record E rec w = (Inr x, w') \<longrightarrow>
        map stage_of (steps_of E rec w) = source_order
        \<and> (\<exists>r n it. steps_of E rec w ! 5 = Compute_reduction r n
              \<and> steps_of E rec w ! 6 = Put_item it
              \<and> reduction_percentage r n = Inr (ReductionPercentage it)
              \<and> last (hala_db w') = it))"
proof (cases rule: process_record_cases [of E rec w])
  case (returns x w')
  from steps_of_returns [OF returns] returns show ?thesis
    by (elim exE conjE) (simp add: source_order_def)
next
  case (raises e w')
  from steps_of_raises [OF raises] raises show ?thesis
    by (elim disjE exE conjE) (simp_all add: source_order_def)
qed

theorem steps_follow_source_order_witness:
  "process_record test_env (test_record ''cats/a+b.png'') test_world
     = (Inr (), snd (process_record test_env (test_record ''cats/a+b.png'') test_world))
   \<and> map stage_of (steps_of test_env (test_record ''cats/a+b.png'') test_world)
     = [Fetch, Extract, Resize, Extract, Store, Metrics, Audit, Release, Release]"
proof -
  have run: "process_record test_env (test_record ''cats/a+b.png'') test_world
    = (Inr (), snd (process_record test_env (test_record ''cats/a+b.png'') test_world))"
    by (simp add: run_defs prod_eq_iff)
  from steps_follow_source_order [of test_env "test_record ''cats/a+b.png''" test_world] run
  have "map stage_of (steps_of test_env (test_record ''cats/a+b.png'') test_world) = source_order"
    by blast
  with run show ?thesis
    by (simp add: source_order_def)
qed


text \<open>
  C8. The key of a notification record is decoded before any call uses it. If the key of the
  record is the escaped form of \<open>k\<close> (spaces as plus signs, other bytes as percent escapes,
  whatever characters other than the plus and the percent sign are left alone), the first step of the record is the download of the
  object \<open>k\<close> itself, into a path made of the base name of \<open>k\<close>; an upload that follows uses
  the key made of the base name of \<open>k\<close>, and an item that follows has \<open>k\<close> as
  \<open>OriginalObjectKey\<close>.
\<close>

theorem key_is_decoded_before_fetch:
  assumes "key rec = quote_plus safe k"
    and "CHR ''+'' \<notin> set safe" and "CHR ''%'' \<notin> set safe"
  shows "\<exists>rest. steps_of E rec w =
            Download_file (bucket_name rec) k
              (download_path_of (uuid4 E (uuid_count w)) (basename k)) # rest
          \<and> (\<forall>it. Put_item it \<in> set rest \<longrightarrow> OriginalObjectKey it = k)
          \<and> (\<forall>p b k' md. Upload_file p b k' md \<in> set rest \<longrightarrow>
                k' = resized_object_key_of (basename k))"
proof -
  have k: "unquote_plus (key rec) = k"
    using assms by (simp add: unquote_plus_quote_plus)
  show ?thesis
  proof (cases rule: process_record_cases [of E rec w])
    case (returns x w')
    from steps_of_returns [OF returns] show ?thesis
      unfolding k by (elim exE conjE) simp
  next
    case (raises e w')
    from steps_of_raises [OF raises] show ?thesis
      unfolding k by (elim disjE exE conjE) simp_all
  qed
qed


theorem key_is_decoded_before_fetch_witness:
  "key (test_record ''cats/a+b.png'') = quote_plus ''/'' ''cats/a b.png''
   \<and> CHR ''+'' \<notin> set ''/'' \<and> CHR ''%'' \<notin> set ''/''
   \<and> hd (steps_of test_env (test_record ''cats/a+b.png'') test_world)
     = Download_file ''src'' ''cats/a b.png'' ''/tmp/id0_a b.png''"
proof -
  have h: "key (test_record ''cats/a+b.png'') = quote_plus ''/'' ''cats/a b.png''"
    by (simp add: test_record_def quote_plus_def quote_char_def always_safe_def hex_digit_def)
  have s1: "CHR ''+'' \<notin> set ''/''" and s2: "CHR ''%'' \<notin> set ''/''"
    by simp_all
  from key_is_decoded_before_fetch [OF h s1 s2, of test_env test_world]
  have "hd (steps_of test_env (test_record ''cats/a+b.png'') test_world)
    = Download_file (bucket_name (test_record ''cats/a+b.png'')) ''cats/a b.png''
        (download_path_of (uuid4 test_env (uuid_count test_world)) (basename ''cats/a b.png''))"
    by (elim exE conjE) simp
  moreover have "bucket_name (test_record ''cats/a+b.png'') = ''src''"
    by (simp add: test_record_def)
  moreover have "download_path_of (uuid4 test_env (uuid_count test_world)) (basename ''cats/a b.png'')
    = ''/tmp/id0_a b.png''"
    by (simp add: download_path_of_def test_env_def test_world_def basename_def str_nat.simps
        digit_char_def)
  ultimately show ?thesis
    using h by simp
qed

text \<open>
  C1. The claim is that both local files are deleted on every exit path. The source deletes
  them only at the end of the \<open>try\<close> body (lines 118 to 123); the handler of line 125 prints
  and raises again. Here the object \<open>notes.txt\<close> is not an image: the record raises at
  \<open>get_image_metadata\<close>, no \<open>os.remove\<close> is among its steps, and the downloaded copy is
  still in /tmp when \<open>process_record\<close> has returned.
\<close>

theorem failed_record_leaves_download_in_tmp:
  "fst (process_record test_env (test_record ''notes.txt'') test_world) = Inl UnidentifiedImageError
   \<and> steps_of test_env (test_record ''notes.txt'') test_world
     = [Download_file ''src'' ''notes.txt'' ''/tmp/id0_notes.txt'',
        Get_image_metadata ''/tmp/id0_notes.txt'']
   \<and> tmp_files (snd (process_record test_env (test_record ''notes.txt'') test_world))
        ''/tmp/id0_notes.txt'' = Some [0, 7, 7]"
  by (simp add: run_defs str_nat.simps digit_char_def)


text \<open>
  C4. The claim is that two records whose keys have the same base name get local names that
  do not collide, for the downloaded and for the resized file. Line 45 puts a fresh
  \<open>uuid4()\<close> into the download path; line 46 builds the path of the resized file from the
  base name alone. Here two records of one batch, \<open>cats/a b.png\<close> and \<open>dogs/a b.png\<close>,
  download to different paths and both write their resized file to \<open>/tmp/resized_a b.png\<close>.
\<close>

theorem same_basename_shares_resized_path:
  "upload_path_of (basename (unquote_plus ''cats/a+b.png'')) = ''/tmp/resized_a b.png''
   \<and> upload_path_of (basename (unquote_plus ''dogs/a+b.png'')) = ''/tmp/resized_a b.png''
   \<and> Resize_image ''/tmp/id0_a b.png'' ''/tmp/resized_a b.png''
       \<in> set (trace (snd (lambda_handler test_env
            \<lparr>Records = [test_record ''cats/a+b.png'', test_record ''dogs/a+b.png'']\<rparr> test_world)))
   \<and> Resize_image ''/tmp/id2_a b.png'' ''/tmp/resized_a b.png''
       \<in> set (trace (snd (lambda_handler test_env
            \<lparr>Records = [test_record ''cats/a+b.png'', test_record ''dogs/a+b.png'']\<rparr> test_world)))"
  by (simp add: run_defs str_nat.simps digit_char_def)

text \<open>
  C2, as the specification states it: for a positive original size the stored
  \<open>ReductionPercentage\<close> is the percentage rounded to the nearest whole percent. With a
  resized file of 1 byte and an original of 16 bytes the percentage is 93.75: line 105 stores
  93, the nearest whole percent is 94. (1/16, 0.9375 and 93.75 are doubles, so no rounding
  to 53 bits takes part.)
\<close>

theorem reduction_is_not_nearest_percent_counterexample:
  "reduction_percentage 1 16 = Inr 93 \<and> nearest_percent 1 16 = 94"
  by (simp add: reduction_percentage_def float_eval nearest_percent_def round_def)

text \<open>
  C2, amended. For a positive original size the stored \<open>ReductionPercentage\<close> is an integer
  of at most 100, the value of \<open>int(round((1 - resized / original) * 100, 2))\<close> in double
  precision: the percentage rounded to two decimals and then cut off towards zero, not
  rounded to the nearest whole percent. When the resized file is not larger than the
  original it is not negative, and it is the nearest whole percent or one less.
\<close>

theorem reduction_percentage_truncates:
  assumes "0 < original"
  shows "\<exists>p. reduction_percentage resized original = Inr p \<and> p \<le> 100
    \<and> (resized \<le> original \<longrightarrow>
          0 \<le> p \<and> nearest_percent resized original - 1 \<le> p
          \<and> p \<le> nearest_percent resized original)"
  using assms reduction_le_100 [of resized original] reduction_near [of original resized]
  by (simp add: reduction_percentage_def)

theorem reduction_percentage_truncates_witness:
  "0 < (3::nat) \<and> (1::nat) \<le> 3
   \<and> (\<exists>p. reduction_percentage 1 3 = Inr p \<and> p \<le> 100 \<and> 66 \<le> p \<and> p \<le> 67)"
proof -
  have h: "0 < (3::nat)" by simp
  have n: "nearest_percent 1 3 = 67"
    by (simp add: nearest_percent_def round_def floor_rat_numeral)
  from reduction_percentage_truncates [OF h, of 1] n show ?thesis
    by auto
qed

end
